theory Spec2Isabelle
  imports Main "HOL-Library.Word"
begin

section \<open>Constants and errors\<close>


definition LATENCY_N :: nat where
  "LATENCY_N = 1024"

text \<open>
  Every way a function of the program can leave its normal path: the exception class
  \<^verbatim>\<open>Except\<close> with its message, a \<^verbatim>\<open>std::string\<close> thrown as it is, a call of \<^verbatim>\<open>exit\<close>
  with its code, the early return of \<^verbatim>\<open>statistics_dump\<close>, and the undefined behaviours
  of C++ that the program can run into (an access outside an array or vector, a division
  by zero, an overflow of a signed \<^verbatim>\<open>int\<close>).
\<close>

datatype error =
    Except string
  | Thrown string
  | Exit int
  | OutOfBounds
  | DivisionByZero
  | SignedOverflow
  | NotEnoughStatistics

section \<open>The latency sampler: class LatencyStat\<close>

text \<open>
  The fields \<^verbatim>\<open>i_\<close>, \<^verbatim>\<open>di_\<close> and \<^verbatim>\<open>stat_\<close> are \<open>ls_i\<close>, \<open>ls_di\<close> and \<open>ls_stat\<close> here
  (an Isabelle name cannot end with an underscore). The two \<^verbatim>\<open>unsigned int\<close> cursors
  are 32-bit words, the ring \<^verbatim>\<open>std::array<unsigned long, LATENCY_N>\<close> is a list of 64-bit
  words. The constructor sets \<^verbatim>\<open>i_(0), di_(1), stat_({0})\<close>.
\<close>

record LatencyStat =
  ls_i :: "32 word"
  ls_di :: "32 word"
  ls_stat :: "64 word list"

definition LatencyStat_init :: LatencyStat where
  "LatencyStat_init = \<lparr> ls_i = 0, ls_di = 1, ls_stat = replicate LATENCY_N 0 \<rparr>"

text \<open>
  \<^verbatim>\<open>LatencyStat::update\<close>. \<^verbatim>\<open>stat_[i_] = dt\<close> does not check its index: a write outside
  the array is the error \<open>OutOfBounds\<close>. The comparisons \<^verbatim>\<open>i_ >= LATENCY_N\<close> and
  \<^verbatim>\<open>++di_ > LATENCY_N / 4\<close> are unsigned, since \<^verbatim>\<open>i_\<close> and \<^verbatim>\<open>di_\<close> are.
\<close>

definition LatencyStat_update :: "64 word \<Rightarrow> LatencyStat \<Rightarrow> error + LatencyStat" where
  "LatencyStat_update dt s =
     (if dt = 0 then Inr s
      else if \<not> unat (ls_i s) < length (ls_stat s) then Inl OutOfBounds
      else
        let s1 = s\<lparr>ls_stat := (ls_stat s)[unat (ls_i s) := dt]\<rparr>;
            s2 = s1\<lparr>ls_i := ls_i s1 + ls_di s1\<rparr>
        in if ls_i s2 \<ge> of_nat LATENCY_N then
             let s3 = s2\<lparr>ls_i := 0\<rparr>;
                 s4 = s3\<lparr>ls_di := ls_di s3 + 1\<rparr>
             in if ls_di s4 > of_nat (LATENCY_N div 4) then Inr (s4\<lparr>ls_di := 1\<rparr>) else Inr s4
           else Inr s2)"

text \<open>A sequence of \<^verbatim>\<open>update\<close> calls on one sampler, stopping at the first error.\<close>

fun LatencyStat_updates :: "64 word list \<Rightarrow> LatencyStat \<Rightarrow> error + LatencyStat" where
  "LatencyStat_updates [] s = Inr s"
| "LatencyStat_updates (dt # dts) s =
     (case LatencyStat_update dt s of
        Inl e \<Rightarrow> Inl e
      | Inr s' \<Rightarrow> LatencyStat_updates dts s')"

text \<open>
  The global store \<^verbatim>\<open>g_lat_stat\<close>: the vector \<^verbatim>\<open>stat\<close> and the sum \<^verbatim>\<open>acc_lat\<close>
  (\<^verbatim>\<open>unsigned long\<close>, so the sum wraps at \<open>2 ^ 64\<close>). The mutex is not modelled: the
  model is sequential.
\<close>

record g_lat_stat_t =
  stat :: "64 word list"
  acc_lat :: "64 word"

definition g_lat_stat_init :: g_lat_stat_t where
  "g_lat_stat_init = \<lparr> stat = [], acc_lat = 0 \<rparr>"

text \<open>
  \<^verbatim>\<open>LatencyStat::dump\<close>: the loop \<^verbatim>\<open>for (auto l : stat_)\<close> with its \<^verbatim>\<open>break\<close> at the first
  zero slot.
\<close>

fun dump_loop :: "64 word list \<Rightarrow> g_lat_stat_t \<Rightarrow> g_lat_stat_t" where
  "dump_loop [] g = g"
| "dump_loop (l # ls) g =
     (if l = 0 then g
      else dump_loop ls (g\<lparr>stat := stat g @ [l], acc_lat := acc_lat g + l\<rparr>))"

definition LatencyStat_dump :: "LatencyStat \<Rightarrow> g_lat_stat_t \<Rightarrow> g_lat_stat_t" where
  "LatencyStat_dump s g = dump_loop (ls_stat s) g"

text \<open>
  The invariant of the sampler: the stride stays between 1 and \<^verbatim>\<open>LATENCY_N / 4\<close>, the
  write index stays inside the ring, and the ring keeps its size.
\<close>

definition LatencyStat_inv :: "LatencyStat \<Rightarrow> bool" where
  "LatencyStat_inv s \<longleftrightarrow>
     1 \<le> unat (ls_di s) \<and> unat (ls_di s) \<le> LATENCY_N div 4 \<and>
     unat (ls_i s) < LATENCY_N \<and> length (ls_stat s) = LATENCY_N"

text \<open>
  Each worker thread ends with \<^verbatim>\<open>lat_stat.dump()\<close> on its own sampler: the global store at
  the end of a run is the result of these calls, in the order the workers took the mutex.
\<close>

fun dump_all :: "LatencyStat list \<Rightarrow> g_lat_stat_t \<Rightarrow> g_lat_stat_t" where
  "dump_all [] g = g"
| "dump_all (s # ss) g = dump_all ss (LatencyStat_dump s g)"

text \<open>
  The invariant of the global store: \<^verbatim>\<open>acc_lat\<close> is the sum of the stored values (modulo
  \<open>2 ^ 64\<close>), and no stored value is zero.
\<close>

definition g_lat_inv :: "g_lat_stat_t \<Rightarrow> bool" where
  "g_lat_inv g \<longleftrightarrow> acc_lat g = sum_list (stat g) \<and> 0 \<notin> set (stat g)"

section \<open>The counters and the driver's statistics: struct stat\<close>

text \<open>
  The six atomic counters are words: an atomic \<^verbatim>\<open>++\<close> or \<^verbatim>\<open>--\<close> wraps around. The fields
  that only the driver thread touches (\<^verbatim>\<open>measures\<close>, \<^verbatim>\<open>max_hs\<close>, \<^verbatim>\<open>min_hs\<close>, \<^verbatim>\<open>avg_hs\<close>
  and the elements of \<^verbatim>\<open>hs_history\<close>) are plain \<^verbatim>\<open>int32_t\<close>: they are integers here, and
  an operation whose result leaves the 32-bit range, which is undefined in C++, is the
  error \<open>SignedOverflow\<close>. The clock \<^verbatim>\<open>stat_time\<close> is not a field: the elapsed time is an
  argument of \<^verbatim>\<open>statistics_update\<close>. The struct is a zero-initialised global.
\<close>

record stat_t =
  tot_tls_handshakes :: "64 word"
  tcp_handshakes :: "32 word"
  tcp_connections :: "32 word"
  tls_connections :: "32 word"
  tls_handshakes :: "32 word"
  error_count :: "32 word"
  measures :: int
  max_hs :: int
  min_hs :: int
  avg_hs :: int
  hs_history :: "int list"

definition stat_init :: stat_t where
  "stat_init = \<lparr> tot_tls_handshakes = 0, tcp_handshakes = 0, tcp_connections = 0,
     tls_connections = 0, tls_handshakes = 0, error_count = 0,
     measures = 0, max_hs = 0, min_hs = 0, avg_hs = 0, hs_history = [] \<rparr>"

definition in_int32 :: "int \<Rightarrow> bool" where
  "in_int32 x \<longleftrightarrow> - (2 ^ 31) \<le> x \<and> x < 2 ^ 31"

text \<open>The quotient of two signed integers in C++ is rounded towards zero.\<close>

definition c_div :: "int \<Rightarrow> int \<Rightarrow> int" where
  "c_div a b = (if (a < 0) = (b < 0) then \<bar>a\<bar> div \<bar>b\<bar> else - (\<bar>a\<bar> div \<bar>b\<bar>))"

text \<open>
  \<^verbatim>\<open>statistics_update\<close> is written in three parts. The first is the sample
  \<^verbatim>\<open>int32_t curr_hs = (size_t)(1000 * tls_conns) / dt\<close>: the product is an \<^verbatim>\<open>int\<close>, the
  division is one of 64-bit unsigned values (\<^verbatim>\<open>dt\<close>, a \<^verbatim>\<open>long\<close>, is the 64-bit word it
  becomes there), and the quotient is cut to 32 bits.
\<close>

definition curr_hs_sample :: "32 word \<Rightarrow> 64 word \<Rightarrow> error + int" where
  "curr_hs_sample tls_conns dt =
     (if \<not> in_int32 (1000 * sint tls_conns) then Inl SignedOverflow
      else if dt = 0 then Inl DivisionByZero
      else Inr (sint (ucast ((word_of_int (1000 * sint tls_conns) :: 64 word) div dt)
                        :: 32 word)))"

text \<open>
  The second part is what follows \<^verbatim>\<open>if (!start_stats) return;\<close>: the sample is recorded.
  The result carries whether the warning of a full history was printed.
\<close>

definition statistics_record :: "int \<Rightarrow> stat_t \<Rightarrow> error + (bool \<times> stat_t)" where
  "statistics_record curr_hs st1 =
     (if \<not> in_int32 (measures st1 + 1) then Inl SignedOverflow
      else
        let st2 = st1\<lparr>measures := measures st1 + 1\<rparr>;
            st3 = (if max_hs st2 < curr_hs then st2\<lparr>max_hs := curr_hs\<rparr> else st2);
            st4 = (if curr_hs \<noteq> 0 \<and> (min_hs st3 > curr_hs \<or> min_hs st3 = 0)
                   then st3\<lparr>min_hs := curr_hs\<rparr> else st3)
        in if \<not> in_int32 (measures st4 - 1)
              \<or> \<not> in_int32 (avg_hs st4 * (measures st4 - 1))
              \<or> \<not> in_int32 (avg_hs st4 * (measures st4 - 1) + curr_hs)
           then Inl SignedOverflow
           else if measures st4 = 0 then Inl DivisionByZero
           else if \<not> in_int32 (c_div (avg_hs st4 * (measures st4 - 1) + curr_hs)
                                  (measures st4))
           then Inl SignedOverflow
           else
             let st5 = st4\<lparr>avg_hs := c_div (avg_hs st4 * (measures st4 - 1) + curr_hs)
                                           (measures st4)\<rparr>;
                 warned = (length (hs_history st5) = 3600)
             in if length (hs_history st5) \<le> 3600
                then Inr (warned, st5\<lparr>hs_history := hs_history st5 @ [curr_hs]\<rparr>)
                else Inr (warned, st5))"

text \<open>
  The whole function. Its arguments are the value of the flag \<^verbatim>\<open>start_stats\<close> that the
  call reads and \<^verbatim>\<open>dt\<close>, the milliseconds since the last call. The status line it prints
  is not modelled.
\<close>

definition statistics_update :: "bool \<Rightarrow> 64 word \<Rightarrow> stat_t \<Rightarrow> error + (bool \<times> stat_t)" where
  "statistics_update start_stats dt st =
     (let tls_conns = tls_connections st;
          st1 = st\<lparr>tls_connections := tls_connections st - tls_conns\<rparr>
      in case curr_hs_sample tls_conns dt of
           Inl e \<Rightarrow> Inl e
         | Inr curr_hs \<Rightarrow>
             if \<not> start_stats then Inr (False, st1)
             else statistics_record curr_hs st1)"

text \<open>
  The driver's loop in \<^verbatim>\<open>main\<close> calls \<^verbatim>\<open>statistics_update\<close> once per second. Between two
  calls the workers change the atomic counters; of these the call reads only
  \<^verbatim>\<open>tls_connections\<close>. A run of the driver is a list of seconds, each with the flag the
  call reads, the handshakes the workers completed in that second and the elapsed
  milliseconds.
\<close>

fun statistics_updates :: "(bool \<times> 32 word \<times> 64 word) list \<Rightarrow> stat_t \<Rightarrow> error + stat_t" where
  "statistics_updates [] st = Inr st"
| "statistics_updates ((start_stats, completed, dt) # rest) st =
     (case statistics_update start_stats dt
             (st\<lparr>tls_connections := tls_connections st + completed\<rparr>) of
        Inl e \<Rightarrow> Inl e
      | Inr (warned, st') \<Rightarrow> statistics_updates rest st')"

section \<open>The final report: statistics_dump\<close>

text \<open>
  \<^verbatim>\<open>front()\<close>, \<^verbatim>\<open>back()\<close> and \<^verbatim>\<open>operator[]\<close> of a vector do not check anything: on an
  empty vector, or past its end, they are the error \<open>OutOfBounds\<close>. A division by zero is
  the error \<open>DivisionByZero\<close>.
\<close>

definition vector_front :: "'a list \<Rightarrow> error + 'a" where
  "vector_front xs = (case xs of [] \<Rightarrow> Inl OutOfBounds | x # _ \<Rightarrow> Inr x)"

definition vector_back :: "'a list \<Rightarrow> error + 'a" where
  "vector_back xs = (if xs = [] then Inl OutOfBounds else Inr (last xs))"

definition vector_at :: "'a list \<Rightarrow> nat \<Rightarrow> error + 'a" where
  "vector_at xs n = (if n < length xs then Inr (xs ! n) else Inl OutOfBounds)"

definition unsigned_div :: "64 word \<Rightarrow> 64 word \<Rightarrow> error + 64 word" where
  "unsigned_div a b = (if b = 0 then Inl DivisionByZero else Inr (a div b))"

text \<open>
  The two \<^verbatim>\<open>std::sort\<close> calls. The history is sorted with \<^verbatim>\<open>std::greater<int32_t>\<close>,
  that is, in descending order. The latencies are \<^verbatim>\<open>unsigned long\<close> but are compared with
  \<^verbatim>\<open>std::less<int32_t>\<close>: each is cut to a signed 32-bit value for the comparison.
  Latencies that compare equal keep their order here, where \<^verbatim>\<open>std::sort\<close> may leave them
  in any order: that can differ only for latencies of \<open>2 ^ 31\<close> microseconds and more.
\<close>

definition sort_greater :: "int list \<Rightarrow> int list" where
  "sort_greater xs = rev (sort xs)"

definition as_int32 :: "64 word \<Rightarrow> int" where
  "as_int32 x = sint (ucast x :: 32 word)"

definition sort_less_int32 :: "64 word list \<Rightarrow> 64 word list" where
  "sort_less_int32 xs = sort_key as_int32 xs"

text \<open>
  What \<^verbatim>\<open>statistics_dump\<close> prints, one field per printed number. The fields whose
  expression can fail hold the failure instead of a number.
\<close>

record report =
  SECONDS :: int
  HANDSHAKES :: "64 word"
  hs_MAX :: int
  hs_AVG :: int
  hs_95P :: "error + int"
  hs_MIN :: int
  lat_MIN :: "error + 64 word"
  lat_AVG :: "error + 64 word"
  lat_95P :: "error + 64 word"
  lat_MAX :: "error + 64 word"

text \<open>
  \<^verbatim>\<open>statistics_dump\<close>, given the flag \<^verbatim>\<open>start_stats\<close>. The message "not enough statistics
  collected" with the early return is the error \<open>NotEnoughStatistics\<close>. The sizes
  \<^verbatim>\<open>hsz\<close> and \<^verbatim>\<open>lsz\<close> are taken before the sort, which keeps them. The products
  \<^verbatim>\<open>hsz * 95\<close> and \<^verbatim>\<open>lsz * 95\<close> are computed in \<^verbatim>\<open>size_t\<close>; a vector that fits in memory
  is too short for them to wrap.
\<close>

definition statistics_dump :: "bool \<Rightarrow> stat_t \<Rightarrow> g_lat_stat_t \<Rightarrow> error + report" where
  "statistics_dump start_stats st g =
     (let hsz = length (hs_history st);
          lsz = length (stat g)
      in if \<not> start_stats \<or> hsz < 1 then Inl NotEnoughStatistics
         else
           let hist = sort_greater (hs_history st);
               lats = sort_less_int32 (stat g)
           in Inr \<lparr> SECONDS = measures st,
                    HANDSHAKES = tot_tls_handshakes st,
                    hs_MAX = max_hs st,
                    hs_AVG = avg_hs st,
                    hs_95P = vector_at hist (hsz * 95 div 100),
                    hs_MIN = min_hs st,
                    lat_MIN = vector_front lats,
                    lat_AVG = unsigned_div (acc_lat g) (of_nat lsz),
                    lat_95P = vector_at lats (lsz * 95 div 100),
                    lat_MAX = vector_back lats \<rparr>)"

text \<open>
  The invariant of the driver's fields: \<^verbatim>\<open>max_hs\<close> is never negative and bounds the
  average, the minimum and every sample of the history.
\<close>

definition driver_inv :: "stat_t \<Rightarrow> bool" where
  "driver_inv st \<longleftrightarrow>
     0 \<le> measures st \<and> 0 \<le> max_hs st \<and> avg_hs st \<le> max_hs st \<and> min_hs st \<le> max_hs st \<and>
     (\<forall>h \<in> set (hs_history st). h \<le> max_hs st)"

text \<open>
  The specification's law of percentile monotonicity, in its own words:
  \<open>min \<le> avg \<le> 95P \<le> max\<close> for both throughput and latency, on a report all of whose
  numbers could be computed.
\<close>

definition spec_percentile_monotonicity :: "report \<Rightarrow> bool" where
  "spec_percentile_monotonicity r \<longleftrightarrow>
     (case hs_95P r of
        Inl e \<Rightarrow> False
      | Inr p \<Rightarrow> hs_MIN r \<le> hs_AVG r \<and> hs_AVG r \<le> p \<and> p \<le> hs_MAX r) \<and>
     (case (lat_MIN r, lat_AVG r, lat_95P r, lat_MAX r) of
        (Inr a, Inr b, Inr c, Inr d) \<Rightarrow> a \<le> b \<and> b \<le> c \<and> c \<le> d
      | _ \<Rightarrow> False)"

section \<open>The options and update_limits\<close>

text \<open>
  The fields of \<^verbatim>\<open>g_opt\<close> that the functions below read: \<^verbatim>\<open>n_peers\<close> and \<^verbatim>\<open>n_threads\<close>
  are \<^verbatim>\<open>int\<close> (an overflow is the error \<open>SignedOverflow\<close>), \<^verbatim>\<open>n_hs\<close> is a \<^verbatim>\<open>size_t\<close>.
\<close>

record g_opt_t =
  n_peers :: int
  n_threads :: int
  n_hs :: "64 word"

text \<open>
  \<^verbatim>\<open>rlim_t req_fd_n = (g_opt.n_peers + 4) * g_opt.n_threads\<close>: the product is computed in
  \<^verbatim>\<open>int\<close> and then becomes a 64-bit unsigned value.
\<close>

definition req_fd_n :: "g_opt_t \<Rightarrow> error + 64 word" where
  "req_fd_n opt =
     (if \<not> in_int32 (n_peers opt + 4) \<or> \<not> in_int32 ((n_peers opt + 4) * n_threads opt)
      then Inl SignedOverflow
      else Inr (word_of_int ((n_peers opt + 4) * n_threads opt)))"

text \<open>
  \<^verbatim>\<open>update_limits\<close>. The arguments \<open>rlim_cur\<close> and \<open>setrlimit_ok\<close> are what the system
  answers: the soft limit that \<^verbatim>\<open>getrlimit\<close> stores in \<^verbatim>\<open>open_file_limit.rlim_cur\<close>, and
  whether \<^verbatim>\<open>setrlimit\<close> returns 0. The local \<open>open_file_limit_rlim_cur\<close> is the field after
  the assignment \<^verbatim>\<open>open_file_limit.rlim_cur = req_fd_n\<close>, which precedes the call of
  \<^verbatim>\<open>setrlimit\<close>. In the quotient \<^verbatim>\<open>open_file_limit.rlim_cur / (g_opt.n_threads + 4)\<close> the
  divisor becomes a 64-bit unsigned value, and the result is cut to an \<^verbatim>\<open>int\<close>.
  \<^verbatim>\<open>exit(3)\<close> is the error \<open>Exit 3\<close>.
\<close>

definition update_limits :: "64 word \<Rightarrow> bool \<Rightarrow> g_opt_t \<Rightarrow> error + g_opt_t" where
  "update_limits rlim_cur setrlimit_ok opt =
     (case req_fd_n opt of
        Inl e \<Rightarrow> Inl e
      | Inr req \<Rightarrow>
          if rlim_cur > req then Inr opt
          else
            let open_file_limit_rlim_cur = req
            in if setrlimit_ok then Inr opt
               else if \<not> in_int32 (n_threads opt + 4) then Inl SignedOverflow
               else if (word_of_int (n_threads opt + 4) :: 64 word) = 0 then Inl DivisionByZero
               else
                 let opt' = opt\<lparr>n_peers :=
                       sint (ucast (open_file_limit_rlim_cur div word_of_int (n_threads opt + 4))
                               :: 32 word)\<rparr>
                 in if n_peers opt' = 0 then Inl (Exit 3) else Inr opt')"

section \<open>The poller's queues: class IO\<close>

text \<open>
  A \<^verbatim>\<open>SocketHandler *\<close> is modelled by the position in \<^verbatim>\<open>all_peers\<close> of the peer it points
  to: \<^verbatim>\<open>io_loop\<close> appends every peer it allocates to that list and removes none. The
  fields \<^verbatim>\<open>ev_count_\<close>, \<^verbatim>\<open>events_\<close>, \<^verbatim>\<open>reconnect_q_\<close> and \<^verbatim>\<open>backlog_\<close> are
  \<open>io_ev_count\<close>, \<open>io_events\<close>, \<open>io_reconnect_q\<close> and \<open>io_backlog\<close>; of an event only its
  \<^verbatim>\<open>data.ptr\<close> is kept. The epoll descriptor and the TLS context are outside the model:
  what the system answers is an argument of each function.
\<close>

type_synonym SocketHandler = nat

record IO =
  io_ev_count :: int
  io_events :: "SocketHandler list"
  io_reconnect_q :: "SocketHandler list"
  io_backlog :: "SocketHandler list"

definition IO_init :: IO where
  "IO_init = \<lparr> io_ev_count = 0, io_events = [], io_reconnect_q = [], io_backlog = [] \<rparr>"

text \<open>\<^verbatim>\<open>IO::queue_reconnect\<close>: \<^verbatim>\<open>reconnect_q_.push_back(sh)\<close>.\<close>

definition queue_reconnect :: "SocketHandler \<Rightarrow> IO \<Rightarrow> IO" where
  "queue_reconnect sh io = io\<lparr>io_reconnect_q := io_reconnect_q io @ [sh]\<rparr>"



text \<open>\<^verbatim>\<open>IO::backlog\<close>: \<^verbatim>\<open>backlog_.swap(reconnect_q_)\<close>.\<close>

definition backlog :: "IO \<Rightarrow> IO" where
  "backlog io = io\<lparr>io_backlog := io_reconnect_q io, io_reconnect_q := io_backlog io\<rparr>"

text \<open>\<^verbatim>\<open>IO::next_backlog\<close>: \<open>None\<close> is \<^verbatim>\<open>NULL\<close>.\<close>

definition next_backlog :: "IO \<Rightarrow> SocketHandler option \<times> IO" where
  "next_backlog io =
     (if io_backlog io = [] then (None, io)
      else
        let sh = hd (io_backlog io)
        in (Some sh, io\<lparr>io_backlog := tl (io_backlog io)\<rparr>))"

text \<open>\<open>n\<close> calls of \<^verbatim>\<open>next_backlog\<close> in a row, with what each returned.\<close>

fun next_backlog_times :: "nat \<Rightarrow> IO \<Rightarrow> SocketHandler option list \<times> IO" where
  "next_backlog_times 0 io = ([], io)"
| "next_backlog_times (Suc n) io =
     (case next_backlog io of
        (sh, io') \<Rightarrow>
          (case next_backlog_times n io' of
             (shs, io'') \<Rightarrow> (sh # shs, io'')))"

section \<open>The peer state machine: class Peer\<close>

datatype states =
    STATE_TCP_CONNECT
  | STATE_TCP_CONNECTING
  | STATE_TLS_HANDSHAKING

text \<open>
  The fields \<^verbatim>\<open>id_\<close>, \<^verbatim>\<open>tls_\<close>, \<^verbatim>\<open>state_\<close> and \<^verbatim>\<open>polled_\<close> are \<open>p_id\<close>, \<open>p_tls\<close>,
  \<open>p_state\<close> and \<open>p_polled\<close>. The pointer \<^verbatim>\<open>SSL *tls_\<close> is \<open>None\<close> when it is \<^verbatim>\<open>NULL\<close> and
  otherwise names the session that \<^verbatim>\<open>SSL_new\<close> returned. The address \<^verbatim>\<open>addr_\<close> never
  changes and is left out, as is the reference \<^verbatim>\<open>io_\<close>: the poller is part of the
  thread's state below.
\<close>

record Peer =
  sd :: int
  p_id :: int
  p_tls :: "nat option"
  p_state :: states
  p_polled :: bool

text \<open>The constructor \<^verbatim>\<open>Peer(IO &io, int id)\<close>.\<close>

definition Peer_new :: "int \<Rightarrow> Peer" where
  "Peer_new i = \<lparr> sd = - 1, p_id = i, p_tls = None, p_state = STATE_TCP_CONNECT,
                   p_polled = False \<rparr>"

text \<open>
  What the system and the TLS library answer during one call of \<^verbatim>\<open>next_state\<close>. Each
  of these calls is made at most once on the way through \<^verbatim>\<open>next_state\<close>:
  \<^verbatim>\<open>socket\<close>, \<^verbatim>\<open>connect\<close> with the \<^verbatim>\<open>errno\<close> it leaves, \<^verbatim>\<open>getsockopt\<close> with the value of
  \<^verbatim>\<open>SO_ERROR\<close> it stores, \<^verbatim>\<open>SSL_new\<close>, \<^verbatim>\<open>SSL_connect\<close>, \<^verbatim>\<open>SSL_get_error\<close>, the
  microseconds between the two readings of the clock around \<^verbatim>\<open>SSL_connect\<close>, and the two
  calls of \<^verbatim>\<open>epoll_ctl\<close> (in \<^verbatim>\<open>IO::add\<close> and \<^verbatim>\<open>IO::del\<close>).
\<close>

record syscalls =
  socket_ret :: int
  connect_ret :: int
  connect_errno :: int
  getsockopt_ret :: int
  so_error :: int
  SSL_new_ret :: "nat option"
  SSL_connect_ret :: int
  SSL_get_error_ret :: int
  latency :: "64 word"
  epoll_ctl_add_ret :: int
  epoll_ctl_del_ret :: int

text \<open>
  Constants of the system headers and of OpenSSL, with their values on Linux; the
  program only compares with them.
\<close>

definition EAGAIN :: int where
  "EAGAIN = 11"

definition EINPROGRESS :: int where
  "EINPROGRESS = 115"

definition SSL_ERROR_WANT_READ :: int where
  "SSL_ERROR_WANT_READ = 2"

definition SSL_ERROR_WANT_WRITE :: int where
  "SSL_ERROR_WANT_WRITE = 3"

text \<open>
  What a method of a peer can change besides the peer itself: the global counters
  \<^verbatim>\<open>stat\<close>, the poller \<^verbatim>\<open>io_\<close> of its thread and the thread's sampler \<^verbatim>\<open>lat_stat\<close>.
\<close>

record thread =
  t_stat :: stat_t
  t_io :: IO
  t_lat_stat :: LatencyStat

text \<open>A statement on the counters, such as \<^verbatim>\<open>stat.tls_handshakes++\<close>.\<close>

definition on_stat :: "(stat_t \<Rightarrow> stat_t) \<Rightarrow> thread \<Rightarrow> thread" where
  "on_stat f t = t\<lparr>t_stat := f (t_stat t)\<rparr>"

text \<open>
  \<^verbatim>\<open>Peer::add_to_poll\<close> and \<^verbatim>\<open>Peer::del_from_poll\<close>, with \<^verbatim>\<open>IO::add\<close> and \<^verbatim>\<open>IO::del\<close>, which
  throw when \<^verbatim>\<open>epoll_ctl\<close> returns a negative value.
\<close>

definition add_to_poll :: "syscalls \<Rightarrow> Peer \<Rightarrow> error + Peer" where
  "add_to_poll sys p =
     (if \<not> p_polled p then
        if epoll_ctl_add_ret sys < 0 then Inl (Except ''can't add socket to poller'')
        else Inr (p\<lparr>p_polled := True\<rparr>)
      else Inr p)"

definition del_from_poll :: "syscalls \<Rightarrow> Peer \<Rightarrow> error + Peer" where
  "del_from_poll sys p =
     (if p_polled p then
        if epoll_ctl_del_ret sys < 0 then Inl (Except ''can't delete socket from poller'')
        else Inr (p\<lparr>p_polled := False\<rparr>)
      else Inr p)"

text \<open>
  \<^verbatim>\<open>Peer::disconnect\<close>. It catches the exception of \<^verbatim>\<open>del_from_poll\<close> (and prints it), so
  that \<^verbatim>\<open>polled_\<close> is then left as it was.
\<close>

definition disconnect :: "syscalls \<Rightarrow> Peer \<Rightarrow> Peer" where
  "disconnect sys p =
     (let p1 = (if p_tls p \<noteq> None then p\<lparr>p_tls := None\<rparr> else p);
          p2 = (if sd p1 \<ge> 0 then
                  (case del_from_poll sys p1 of Inl e \<Rightarrow> p1 | Inr p' \<Rightarrow> p')\<lparr>sd := - 1\<rparr>
                else p1)
      in p2\<lparr>p_state := STATE_TCP_CONNECT\<rparr>)"

text \<open>
  \<^verbatim>\<open>Peer::tls_handshake\<close>. The argument \<open>self\<close> is the pointer \<^verbatim>\<open>this\<close>, which it passes
  to \<^verbatim>\<open>queue_reconnect\<close>. When the function throws, the changes it made before are of no
  interest: the exception ends the process.
\<close>

definition tls_handshake ::
    "syscalls \<Rightarrow> SocketHandler \<Rightarrow> Peer \<Rightarrow> thread \<Rightarrow> error + (bool \<times> Peer \<times> thread)" where
  "tls_handshake sys self p t =
     (let p1 = p\<lparr>p_state := STATE_TLS_HANDSHAKING\<rparr>
      in case (if p_tls p1 = None then
                 case SSL_new_ret sys of
                   None \<Rightarrow> Inl (Except ''cannot clone TLS context'')
                 | Some ctx \<Rightarrow>
                     Inr (p1\<lparr>p_tls := Some ctx\<rparr>,
                          on_stat (\<lambda>s. s\<lparr>tls_handshakes := tls_handshakes s + 1\<rparr>) t)
               else Inr (p1, t)) of
           Inl e \<Rightarrow> Inl e
         | Inr (p2, t2) \<Rightarrow>
             if SSL_connect_ret sys = 1 then
               case LatencyStat_update (latency sys) (t_lat_stat t2) of
                 Inl e \<Rightarrow> Inl e
               | Inr lat' \<Rightarrow>
                   let t3 = t2\<lparr>t_lat_stat := lat'\<rparr>;
                       t4 = on_stat (\<lambda>s. s\<lparr>tls_handshakes := tls_handshakes s - 1\<rparr>) t3;
                       t5 = on_stat (\<lambda>s. s\<lparr>tls_connections := tls_connections s + 1\<rparr>) t4;
                       t6 = on_stat (\<lambda>s. s\<lparr>tot_tls_handshakes := tot_tls_handshakes s + 1\<rparr>) t5;
                       p3 = disconnect sys p2;
                       t7 = on_stat (\<lambda>s. s\<lparr>tcp_connections := tcp_connections s - 1\<rparr>) t6;
                       t8 = t7\<lparr>t_io := queue_reconnect self (t_io t7)\<rparr>
                   in Inr (True, p3, t8)
             else if SSL_get_error_ret sys = SSL_ERROR_WANT_READ
                     \<or> SSL_get_error_ret sys = SSL_ERROR_WANT_WRITE then
               case add_to_poll sys p2 of
                 Inl e \<Rightarrow> Inl e
               | Inr p3 \<Rightarrow> Inr (False, p3, t2)
             else if tls_connections (t_stat t2) = 0 then
               Inl (Except ''cannot establish even one TLS connection'')
             else
               let t3 = on_stat (\<lambda>s. s\<lparr>tls_handshakes := tls_handshakes s - 1\<rparr>) t2;
                   t4 = on_stat (\<lambda>s. s\<lparr>error_count := error_count s + 1\<rparr>) t3;
                   p3 = disconnect sys p2;
                   t5 = on_stat (\<lambda>s. s\<lparr>tcp_connections := tcp_connections s - 1\<rparr>) t4
               in Inr (False, p3, t5))"

text \<open>\<^verbatim>\<open>Peer::handle_established_tcp_conn\<close>.\<close>

definition handle_established_tcp_conn ::
    "syscalls \<Rightarrow> SocketHandler \<Rightarrow> Peer \<Rightarrow> thread \<Rightarrow> error + (bool \<times> Peer \<times> thread)" where
  "handle_established_tcp_conn sys self p t =
     (let t1 = on_stat (\<lambda>s. s\<lparr>tcp_handshakes := tcp_handshakes s - 1\<rparr>) t;
          t2 = on_stat (\<lambda>s. s\<lparr>tcp_connections := tcp_connections s + 1\<rparr>) t1
      in tls_handshake sys self p t2)"

text \<open>\<^verbatim>\<open>Peer::handle_connect_error\<close>.\<close>

definition handle_connect_error ::
    "syscalls \<Rightarrow> int \<Rightarrow> Peer \<Rightarrow> thread \<Rightarrow> error + (Peer \<times> thread)" where
  "handle_connect_error sys err p t =
     (if err = EINPROGRESS \<or> err = EAGAIN then
        case add_to_poll sys p of
          Inl e \<Rightarrow> Inl e
        | Inr p' \<Rightarrow> Inr (p', t)
      else if tcp_connections (t_stat t) = 0 then
        Inl (Except ''cannot establish even one TCP connection'')
      else
        let t1 = on_stat (\<lambda>s. s\<lparr>tcp_handshakes := tcp_handshakes s - 1\<rparr>) t
        in Inr (disconnect sys p, t1))"

text \<open>\<^verbatim>\<open>Peer::tcp_connect_try_finish\<close>.\<close>

definition tcp_connect_try_finish ::
    "syscalls \<Rightarrow> SocketHandler \<Rightarrow> Peer \<Rightarrow> thread \<Rightarrow> error + (bool \<times> Peer \<times> thread)" where
  "tcp_connect_try_finish sys self p t =
     (if getsockopt_ret sys \<noteq> 0 then Inl (Except ''cannot get a socket connect() status'')
      else if so_error sys = 0 then handle_established_tcp_conn sys self p t
      else
        case handle_connect_error sys (so_error sys) p t of
          Inl e \<Rightarrow> Inl e
        | Inr (p', t') \<Rightarrow> Inr (False, p', t'))"

text \<open>\<^verbatim>\<open>Peer::tcp_connect\<close>.\<close>

definition tcp_connect ::
    "syscalls \<Rightarrow> SocketHandler \<Rightarrow> Peer \<Rightarrow> thread \<Rightarrow> error + (bool \<times> Peer \<times> thread)" where
  "tcp_connect sys self p t =
     (let p1 = p\<lparr>sd := socket_ret sys\<rparr>
      in if sd p1 < 0 then Inl (Except ''cannot create a socket'')
         else
           let t1 = on_stat (\<lambda>s. s\<lparr>tcp_handshakes := tcp_handshakes s + 1\<rparr>) t;
               p2 = p1\<lparr>p_state := STATE_TCP_CONNECTING\<rparr>
           in if connect_ret sys = 0 then handle_established_tcp_conn sys self p2 t1
              else
                case handle_connect_error sys (connect_errno sys) p2 t1 of
                  Inl e \<Rightarrow> Inl e
                | Inr (p', t') \<Rightarrow> Inr (False, p', t'))"

text \<open>
  \<^verbatim>\<open>Peer::next_state\<close>, the one method the worker loop calls, on the peer \<open>p\<close> that the
  pointer \<open>self\<close> points to. The \<^verbatim>\<open>default\<close> branch of its \<^verbatim>\<open>switch\<close> cannot be reached:
  \<open>states\<close> has the three values only.
\<close>

definition next_state ::
    "syscalls \<Rightarrow> SocketHandler \<Rightarrow> Peer \<Rightarrow> thread \<Rightarrow> error + (bool \<times> Peer \<times> thread)" where
  "next_state sys self p t =
     (case p_state p of
        STATE_TCP_CONNECT \<Rightarrow> tcp_connect sys self p t
      | STATE_TCP_CONNECTING \<Rightarrow> tcp_connect_try_finish sys self p t
      | STATE_TLS_HANDSHAKING \<Rightarrow> tls_handshake sys self p t)"

text \<open>
  A thread at its start: the zero-initialised counters, an empty poller and a fresh
  sampler.
\<close>

definition thread_init :: thread where
  "thread_init = \<lparr> t_stat = stat_init, t_io = IO_init, t_lat_stat = LatencyStat_init \<rparr>"

text \<open>
  Three answers of the system, used as inputs below. In all of them \<^verbatim>\<open>socket\<close> returns
  descriptor 5, \<^verbatim>\<open>connect\<close> succeeds at once and \<^verbatim>\<open>SSL_new\<close> returns session 1. In the
  first \<^verbatim>\<open>SSL_connect\<close> returns 1 after 7 microseconds; in the second it returns -1 and
  \<^verbatim>\<open>SSL_get_error\<close> says \<^verbatim>\<open>SSL_ERROR_WANT_READ\<close>; in the third it returns -1 and
  \<^verbatim>\<open>SSL_get_error\<close> says \<^verbatim>\<open>SSL_ERROR_SSL\<close> (1), a fatal error.
\<close>

definition sys_handshake_done :: syscalls where
  "sys_handshake_done =
     \<lparr> socket_ret = 5, connect_ret = 0, connect_errno = 0, getsockopt_ret = 0, so_error = 0,
       SSL_new_ret = Some 1, SSL_connect_ret = 1, SSL_get_error_ret = 0, latency = 7,
       epoll_ctl_add_ret = 0, epoll_ctl_del_ret = 0 \<rparr>"

definition sys_handshake_want_read :: syscalls where
  "sys_handshake_want_read =
     sys_handshake_done\<lparr>SSL_connect_ret := - 1, SSL_get_error_ret := SSL_ERROR_WANT_READ\<rparr>"

definition sys_handshake_fatal :: syscalls where
  "sys_handshake_fatal = sys_handshake_done\<lparr>SSL_connect_ret := - 1, SSL_get_error_ret := 1\<rparr>"

section \<open>The worker loop: io_loop\<close>


text \<open>
  The state of a worker: what its peers can change, the peers that the pointers of
  \<^verbatim>\<open>all_peers\<close> point to, in the order of the list, the two counters of the loop, which
  are \<^verbatim>\<open>int\<close>, the flag \<^verbatim>\<open>start_stats\<close> and the clock.
\<close>

record worker =
  w_thread :: thread
  all_peers :: "Peer list"
  active_peers :: int
  new_peers :: int
  w_start_stats :: bool
  w_clock :: nat















text \<open>
  The invariant of the two counters: the budget is not negative, and the peers created
  and the peers still to create are together at most the target.
\<close>

definition loop_inv :: "g_opt_t \<Rightarrow> worker \<Rightarrow> bool" where
  "loop_inv opt w \<longleftrightarrow> 0 \<le> new_peers w \<and> active_peers w + new_peers w \<le> n_peers opt"



section \<open>Properties of the latency sampler\<close>

lemma LatencyStat_inv_init: "LatencyStat_inv LatencyStat_init"
  by (simp add: LatencyStat_inv_def LatencyStat_init_def LATENCY_N_def)

lemma LatencyStat_update_zero: "LatencyStat_update 0 s = Inr s"
  by (simp add: LatencyStat_update_def)

lemma LatencyStat_update_step:
  assumes "LatencyStat_inv s" and "dt \<noteq> 0"
  shows "LatencyStat_update dt s =
     Inr (s\<lparr>ls_stat := (ls_stat s)[unat (ls_i s) := dt],
            ls_i := (if LATENCY_N \<le> unat (ls_i s) + unat (ls_di s) then 0
                     else ls_i s + ls_di s),
            ls_di := (if LATENCY_N \<le> unat (ls_i s) + unat (ls_di s)
                      then (if LATENCY_N div 4 < unat (ls_di s) + 1 then 1 else ls_di s + 1)
                      else ls_di s)\<rparr>)"
  using assms
  by (simp add: LatencyStat_inv_def LatencyStat_update_def LATENCY_N_def Let_def
      word_le_nat_alt word_less_nat_alt unat_word_ariths)

lemma LatencyStat_update_inv:
  assumes "LatencyStat_inv s"
  shows "\<exists>s'. LatencyStat_update dt s = Inr s' \<and> LatencyStat_inv s'"
proof (cases "dt = 0")
  case True
  with assms show ?thesis by (simp add: LatencyStat_update_zero)
next
  case False
  show ?thesis
    unfolding LatencyStat_update_step [OF assms False]
    using assms
    by (simp add: LatencyStat_inv_def LATENCY_N_def unat_word_ariths)
qed

lemma LatencyStat_updates_inv:
  "LatencyStat_inv s \<Longrightarrow> \<exists>s'. LatencyStat_updates dts s = Inr s' \<and> LatencyStat_inv s'"
proof (induction dts arbitrary: s)
  case Nil
  then show ?case by simp
next
  case (Cons dt dts)
  from LatencyStat_update_inv [OF Cons.prems, of dt] obtain s1 where
    s1: "LatencyStat_update dt s = Inr s1" "LatencyStat_inv s1" by blast
  from Cons.IH [OF s1(2)] s1(1) show ?case by simp
qed

lemma LatencyStat_update_changed_slot:
  assumes "LatencyStat_update dt s = Inr s'"
    and "k < length (ls_stat s')"
    and "ls_stat s' ! k \<noteq> ls_stat s ! k"
  shows "ls_stat s' ! k = dt \<and> dt \<noteq> 0"
  using assms
  by (auto simp: LatencyStat_update_def Let_def nth_list_update split: if_splits)

lemma dump_loop_stat: "stat (dump_loop ls g) = stat g @ takeWhile (\<lambda>l. l \<noteq> 0) ls"
  by (induction ls arbitrary: g) auto

lemma dump_loop_acc_lat:
  "acc_lat (dump_loop ls g) = acc_lat g + sum_list (takeWhile (\<lambda>l. l \<noteq> 0) ls)"
  by (induction ls arbitrary: g) (auto simp: add.assoc)

text \<open>
  Claim C8. From the initial sampler (\<open>i = 0\<close>, \<open>di = 1\<close>), every sequence of
  \<^verbatim>\<open>update\<close> calls runs without an error and ends in a state with
  \<open>1 \<le> di \<le> N / 4\<close> and \<open>i < N\<close>; in such a state an update with a non-zero duration
  writes the duration at index \<open>i\<close>, advances \<open>i\<close> by \<open>di\<close>, and when the new index
  reaches \<open>N\<close> it sets \<open>i\<close> to 0 and increments \<open>di\<close>, which goes back to 1 when it
  exceeds \<open>N / 4\<close>.
\<close>

theorem LatencyStat_stride_invariant:
  "\<exists>s. LatencyStat_updates dts LatencyStat_init = Inr s \<and>
        1 \<le> unat (ls_di s) \<and> unat (ls_di s) \<le> LATENCY_N div 4 \<and>
        unat (ls_i s) < LATENCY_N \<and>
        (\<forall>dt. dt \<noteq> 0 \<longrightarrow>
           LatencyStat_update dt s =
             Inr (s\<lparr>ls_stat := (ls_stat s)[unat (ls_i s) := dt],
                    ls_i := (if LATENCY_N \<le> unat (ls_i s) + unat (ls_di s) then 0
                             else ls_i s + ls_di s),
                    ls_di := (if LATENCY_N \<le> unat (ls_i s) + unat (ls_di s)
                              then (if LATENCY_N div 4 < unat (ls_di s) + 1 then 1
                                    else ls_di s + 1)
                              else ls_di s)\<rparr>))"
proof -
  from LatencyStat_updates_inv [OF LatencyStat_inv_init, of dts] obtain s where
    s: "LatencyStat_updates dts LatencyStat_init = Inr s" "LatencyStat_inv s" by blast
  from s(2) have "1 \<le> unat (ls_di s)" "unat (ls_di s) \<le> LATENCY_N div 4"
    "unat (ls_i s) < LATENCY_N"
    by (simp_all add: LatencyStat_inv_def)
  with s(1) LatencyStat_update_step [OF s(2)] show ?thesis by blast
qed

theorem LatencyStat_stride_invariant_witness:
  "\<exists>s. LatencyStat_updates [5, 0, 7] LatencyStat_init = Inr s \<and>
        ls_i s = 2 \<and> ls_di s = 1 \<and>
        LatencyStat_update 3 s = Inr (s\<lparr>ls_stat := (ls_stat s)[2 := 3], ls_i := 3\<rparr>)"
proof -
  from LatencyStat_stride_invariant [of "[5, 0, 7]"] obtain s where
    run: "LatencyStat_updates [5, 0, 7] LatencyStat_init = Inr s"
    and step: "\<forall>dt. dt \<noteq> 0 \<longrightarrow>
           LatencyStat_update dt s =
             Inr (s\<lparr>ls_stat := (ls_stat s)[unat (ls_i s) := dt],
                    ls_i := (if LATENCY_N \<le> unat (ls_i s) + unat (ls_di s) then 0
                             else ls_i s + ls_di s),
                    ls_di := (if LATENCY_N \<le> unat (ls_i s) + unat (ls_di s)
                              then (if LATENCY_N div 4 < unat (ls_di s) + 1 then 1
                                    else ls_di s + 1)
                              else ls_di s)\<rparr>)"
    by blast
  have "LatencyStat_updates [5, 0, 7] LatencyStat_init =
        Inr \<lparr>ls_i = 2, ls_di = 1, ls_stat = (replicate LATENCY_N 0)[0 := 5, 1 := 7]\<rparr>"
    by (simp add: LatencyStat_update_def LatencyStat_init_def LATENCY_N_def Let_def
        word_le_nat_alt)
  with run have cur: "ls_i s = 2" "ls_di s = 1" by auto
  from step have "LatencyStat_update 3 s =
      Inr (s\<lparr>ls_stat := (ls_stat s)[unat (ls_i s) := 3],
             ls_i := (if LATENCY_N \<le> unat (ls_i s) + unat (ls_di s) then 0
                      else ls_i s + ls_di s),
             ls_di := (if LATENCY_N \<le> unat (ls_i s) + unat (ls_di s)
                       then (if LATENCY_N div 4 < unat (ls_di s) + 1 then 1
                             else ls_di s + 1)
                       else ls_di s)\<rparr>)"
    by simp
  with cur have "LatencyStat_update 3 s = Inr (s\<lparr>ls_stat := (ls_stat s)[2 := 3], ls_i := 3\<rparr>)"
    by (simp add: LATENCY_N_def)
  with run cur show ?thesis by blast
qed

text \<open>
  Claim C9. An \<^verbatim>\<open>update\<close> with a zero duration returns the sampler unchanged; a slot that
  an \<^verbatim>\<open>update\<close> changes holds the non-zero duration it was called with, so \<^verbatim>\<open>update\<close>
  never writes a zero. \<^verbatim>\<open>dump\<close> appends to the global store the slots before the first
  zero slot, from index 0 on, and adds each of them to \<^verbatim>\<open>acc_lat\<close>.
\<close>

theorem LatencyStat_zero_rejected_and_dump:
  "LatencyStat_update 0 s = Inr s \<and>
   (\<forall>dt s' k. LatencyStat_update dt s = Inr s' \<and> k < length (ls_stat s') \<and>
        ls_stat s' ! k \<noteq> ls_stat s ! k \<longrightarrow> ls_stat s' ! k \<noteq> 0) \<and>
   stat (LatencyStat_dump s g) = stat g @ takeWhile (\<lambda>l. l \<noteq> 0) (ls_stat s) \<and>
   acc_lat (LatencyStat_dump s g) =
     acc_lat g + sum_list (takeWhile (\<lambda>l. l \<noteq> 0) (ls_stat s))"
  using LatencyStat_update_changed_slot [of _ s]
  by (auto simp: LatencyStat_update_zero LatencyStat_dump_def dump_loop_stat dump_loop_acc_lat)

theorem LatencyStat_zero_rejected_and_dump_witness:
  "LatencyStat_update 0 \<lparr>ls_i = 2, ls_di = 1, ls_stat = [5, 7, 0, 9]\<rparr> =
     Inr \<lparr>ls_i = 2, ls_di = 1, ls_stat = [5, 7, 0, 9]\<rparr> \<and>
   LatencyStat_update 3 \<lparr>ls_i = 2, ls_di = 1, ls_stat = [5, 7, 0, 9]\<rparr> =
     Inr \<lparr>ls_i = 3, ls_di = 1, ls_stat = [5, 7, 3, 9]\<rparr> \<and>
   [5, 7, 3, 9] ! 2 \<noteq> (0 :: 64 word) \<and>
   stat (LatencyStat_dump \<lparr>ls_i = 2, ls_di = 1, ls_stat = [5, 7, 0, 9]\<rparr>
          \<lparr>stat = [4], acc_lat = 4\<rparr>) = [4, 5, 7] \<and>
   acc_lat (LatencyStat_dump \<lparr>ls_i = 2, ls_di = 1, ls_stat = [5, 7, 0, 9]\<rparr>
          \<lparr>stat = [4], acc_lat = 4\<rparr>) = 16"
proof -
  let ?s = "\<lparr>ls_i = 2, ls_di = 1, ls_stat = [5, 7, 0, 9 :: 64 word]\<rparr>"
  let ?s' = "\<lparr>ls_i = 3, ls_di = 1, ls_stat = [5, 7, 3, 9 :: 64 word]\<rparr>"
  let ?g = "\<lparr>stat = [4 :: 64 word], acc_lat = 4\<rparr>"
  note inst = LatencyStat_zero_rejected_and_dump [of ?s ?g]
  have upd: "LatencyStat_update 3 ?s = Inr ?s'"
    by (simp add: LatencyStat_update_def LATENCY_N_def Let_def word_le_nat_alt)
  from inst have "LatencyStat_update 3 ?s = Inr ?s' \<and> 2 < length (ls_stat ?s') \<and>
        ls_stat ?s' ! 2 \<noteq> ls_stat ?s ! 2 \<longrightarrow> ls_stat ?s' ! 2 \<noteq> 0"
    by blast
  with upd have nz: "[5, 7, 3, 9] ! 2 \<noteq> (0 :: 64 word)" by simp
  from inst upd nz show ?thesis by simp
qed

section \<open>Properties of the driver's statistics\<close>

lemma statistics_update_idle_second:
  assumes "m \<le> 3600"
  shows "statistics_update True 1000
           (stat_init\<lparr>measures := int m, hs_history := replicate m 0\<rparr>) =
         Inr (m = 3600,
              stat_init\<lparr>measures := int (Suc m), hs_history := replicate (Suc m) 0\<rparr>)"
  using assms
  by (simp add: statistics_update_def curr_hs_sample_def statistics_record_def stat_init_def
      in_int32_def c_div_def Let_def
      replicate_append_same)

lemma statistics_updates_idle_seconds:
  "m + k \<le> 3601 \<Longrightarrow>
   statistics_updates (replicate k (True, 0, 1000))
       (stat_init\<lparr>measures := int m, hs_history := replicate m 0\<rparr>) =
     Inr (stat_init\<lparr>measures := int (m + k), hs_history := replicate (m + k) 0\<rparr>)"
proof (induction k arbitrary: m)
  case 0
  then show ?case by simp
next
  case (Suc k)
  then have m: "m \<le> 3600" and rest: "Suc m + k \<le> 3601" by simp_all
  have same: "stat_init\<lparr>measures := int m, hs_history := replicate m 0,
                tls_connections :=
                  tls_connections (stat_init\<lparr>measures := int m, hs_history := replicate m 0\<rparr>) + 0\<rparr>
           = stat_init\<lparr>measures := int m, hs_history := replicate m 0\<rparr>"
    by (simp add: stat_init_def)
  show ?case
    using Suc.IH [OF rest] statistics_update_idle_second [OF m]
    by (simp add: same)
qed

text \<open>
  Claim C3 (the code differs). With the flag \<^verbatim>\<open>start_stats\<close> set, 3601 seconds without a
  handshake leave 3601 samples in the history: the call that finds 3600 entries prints
  the warning and appends its sample all the same, since the guard of the
  \<^verbatim>\<open>push_back\<close> is \<^verbatim>\<open>size() <= 3600\<close>.
\<close>

theorem statistics_update_history_3601:
  "statistics_updates (replicate 3601 (True, 0, 1000)) stat_init =
     Inr (stat_init\<lparr>measures := 3601, hs_history := replicate 3601 0\<rparr>) \<and>
   length (hs_history (stat_init\<lparr>measures := 3601, hs_history := replicate 3601 0\<rparr>)) = 3601 \<and>
   statistics_update True 1000
       (stat_init\<lparr>measures := 3600, hs_history := replicate 3600 0\<rparr>) =
     Inr (True, stat_init\<lparr>measures := 3601, hs_history := replicate 3601 0\<rparr>)"
proof -
  have "stat_init\<lparr>measures := int 0, hs_history := replicate 0 0\<rparr> = stat_init"
    by (simp add: stat_init_def)
  with statistics_updates_idle_seconds [of 0 3601] statistics_update_idle_second [of 3600]
  show ?thesis by simp
qed

theorem statistics_update_history_3601_witness:
  "\<exists>st. statistics_updates (replicate 3601 (True, 0, 1000)) stat_init = Inr st \<and>
        length (hs_history st) = 3601"
  using statistics_update_history_3601 by simp

text \<open>
  What the code keeps instead: the history never holds more than 3601 samples.
\<close>

lemma statistics_update_history_bound:
  assumes "length (hs_history st) \<le> 3601" and "statistics_update f dt st = Inr (w, st')"
  shows "length (hs_history st') \<le> 3601"
  using assms
  by (auto simp: statistics_update_def statistics_record_def Let_def
      split: sum.splits if_splits)

lemma statistics_updates_history_bound:
  "length (hs_history st) \<le> 3601 \<Longrightarrow> statistics_updates secs st = Inr st' \<Longrightarrow>
   length (hs_history st') \<le> 3601"
proof (induction secs arbitrary: st)
  case Nil
  then show ?case by simp
next
  case (Cons sec secs)
  obtain f c dt where sec: "sec = (f, c, dt)" by (cases sec)
  from Cons.prems(2) sec obtain w st1 where
    one: "statistics_update f dt (st\<lparr>tls_connections := tls_connections st + c\<rparr>) = Inr (w, st1)"
    and rest: "statistics_updates secs st1 = Inr st'"
    by (auto split: sum.splits)
  from Cons.prems(1) have "length (hs_history (st\<lparr>tls_connections := tls_connections st + c\<rparr>)) \<le> 3601"
    by simp
  from statistics_update_history_bound [OF this one] have "length (hs_history st1) \<le> 3601" .
  from Cons.IH [OF this rest] show ?case .
qed

text \<open>
  Claim C10. \<^verbatim>\<open>statistics_dump\<close> takes its error-and-return branch exactly when the flag
  \<^verbatim>\<open>start_stats\<close> is unset or the throughput history is empty, and on no other ground.
  With the flag set, a non-empty history and an empty latency store it goes on to the
  report, where \<^verbatim>\<open>front()\<close>, \<^verbatim>\<open>back()\<close> and the element at \<^verbatim>\<open>lsz * 95 / 100\<close> are read
  outside the empty vector and \<^verbatim>\<open>acc_lat / lsz\<close> divides by zero.
\<close>

theorem statistics_dump_latency_unguarded:
  "(statistics_dump start_stats st g = Inl NotEnoughStatistics \<longleftrightarrow>
      \<not> start_stats \<or> hs_history st = []) \<and>
   (\<forall>e. statistics_dump start_stats st g = Inl e \<longrightarrow> e = NotEnoughStatistics) \<and>
   (start_stats \<and> hs_history st \<noteq> [] \<and> stat g = [] \<longrightarrow>
      (\<exists>r. statistics_dump start_stats st g = Inr r \<and>
           lat_MIN r = Inl OutOfBounds \<and> lat_AVG r = Inl DivisionByZero \<and>
           lat_95P r = Inl OutOfBounds \<and> lat_MAX r = Inl OutOfBounds))"
  by (auto simp: statistics_dump_def Let_def vector_front_def vector_back_def vector_at_def
      unsigned_div_def sort_less_int32_def)

theorem statistics_dump_latency_unguarded_witness:
  "statistics_updates [(True, 10, 1000)] stat_init =
     Inr (stat_init\<lparr>measures := 1, max_hs := 10, min_hs := 10, avg_hs := 10,
                     hs_history := [10]\<rparr>) \<and>
   (\<exists>r. statistics_dump True
           (stat_init\<lparr>measures := 1, max_hs := 10, min_hs := 10, avg_hs := 10,
                       hs_history := [10]\<rparr>)
           g_lat_stat_init = Inr r \<and>
        hs_95P r = Inr 10 \<and>
        lat_MIN r = Inl OutOfBounds \<and> lat_AVG r = Inl DivisionByZero \<and>
        lat_95P r = Inl OutOfBounds \<and> lat_MAX r = Inl OutOfBounds)"
proof -
  let ?st = "stat_init\<lparr>measures := 1, max_hs := 10, min_hs := 10, avg_hs := 10,
                        hs_history := [10]\<rparr>"
  have run: "statistics_updates [(True, 10, 1000)] stat_init = Inr ?st"
    by (simp add: statistics_update_def curr_hs_sample_def statistics_record_def stat_init_def
      in_int32_def c_div_def Let_def)
  have pre: "True \<and> hs_history ?st \<noteq> [] \<and> stat g_lat_stat_init = []"
    by (simp add: g_lat_stat_init_def)
  with statistics_dump_latency_unguarded [of True ?st g_lat_stat_init]
  obtain r where r: "statistics_dump True ?st g_lat_stat_init = Inr r"
    "lat_MIN r = Inl OutOfBounds" "lat_AVG r = Inl DivisionByZero"
    "lat_95P r = Inl OutOfBounds" "lat_MAX r = Inl OutOfBounds"
    by blast
  from r(1) have "hs_95P r = Inr 10"
    by (auto simp: statistics_dump_def Let_def vector_at_def sort_greater_def)
  with run r show ?thesis by blast
qed

section \<open>The order of the reported numbers\<close>


lemma c_div_le:
  assumes "0 \<le> M" "0 < n" "x \<le> M * n"
  shows "c_div x n \<le> M"
proof (cases "x < 0")
  case True
  have "0 \<le> \<bar>x\<bar> div \<bar>n\<bar>" using assms(2) by (simp add: pos_imp_zdiv_nonneg_iff)
  with True assms show ?thesis by (simp add: c_div_def)
next
  case False
  with assms have "x div n \<le> (M * n) div n" by (intro zdiv_mono1) simp_all
  with False assms show ?thesis by (simp add: c_div_def)
qed

lemma driver_inv_init: "driver_inv stat_init"
  by (simp add: driver_inv_def stat_init_def)

lemma driver_inv_counters:
  "driver_inv (st\<lparr>tls_connections := c\<rparr>) = driver_inv st"
  by (simp add: driver_inv_def)

lemma avg_bound:
  assumes "a \<le> M" "c \<le> M'" "M \<le> M'" "0 \<le> (m::int)"
  shows "a * m + c \<le> M' * (m + 1)"
proof -
  have "a * m \<le> M' * m" using assms by (intro mult_right_mono) simp_all
  with assms show ?thesis by (simp add: algebra_simps)
qed

lemma statistics_record_inv:
  assumes "driver_inv st" and "statistics_record smp st = Inr (w, st')"
  shows "driver_inv st'"
proof -
  define M' where "M' = max (max_hs st) smp"
  define m where "m = measures st"
  define a' where "a' = c_div (avg_hs st * m + smp) (m + 1)"
  from assms(1) have inv: "0 \<le> m" "0 \<le> max_hs st" "avg_hs st \<le> max_hs st"
    "min_hs st \<le> max_hs st" "\<forall>h \<in> set (hs_history st). h \<le> max_hs st"
    by (simp_all add: driver_inv_def m_def)
  have "avg_hs st * m + smp \<le> M' * (m + 1)"
    using inv by (intro avg_bound [where M = "max_hs st"]) (simp_all add: M'_def)
  moreover have "0 \<le> M'" using inv by (simp add: M'_def)
  ultimately have a': "a' \<le> M'"
    unfolding a'_def using inv(1) by (intro c_div_le) simp_all
  from assms(2) have fields:
    "measures st' = m + 1" "max_hs st' = M'" "avg_hs st' = a'"
    "min_hs st' = (if smp \<noteq> 0 \<and> (min_hs st > smp \<or> min_hs st = 0) then smp else min_hs st)"
    "set (hs_history st') \<subseteq> insert smp (set (hs_history st))"
    by (auto simp: statistics_record_def Let_def M'_def m_def a'_def split: if_splits)
  have "min_hs st' \<le> M'" using inv by (auto simp: fields M'_def)
  moreover have "\<forall>h \<in> set (hs_history st'). h \<le> M'"
  proof
    fix h assume "h \<in> set (hs_history st')"
    with fields(5) have "h = smp \<or> h \<in> set (hs_history st)" by blast
    with inv(5) show "h \<le> M'" by (auto simp: M'_def max_def)
  qed
  ultimately show ?thesis
    using inv a' \<open>0 \<le> M'\<close> by (simp add: driver_inv_def fields)
qed

lemma statistics_update_inv:
  assumes "driver_inv st" and "statistics_update f dt st = Inr (w, st')"
  shows "driver_inv st'"
proof -
  let ?st1 = "st\<lparr>tls_connections := tls_connections st - tls_connections st\<rparr>"
  have inv1: "driver_inv ?st1" using assms(1) by (simp add: driver_inv_counters)
  from assms(2) obtain smp where
    "curr_hs_sample (tls_connections st) dt = Inr smp"
    and res: "(if \<not> f then Inr (False, ?st1) else statistics_record smp ?st1) = Inr (w, st')"
    by (auto simp: statistics_update_def Let_def split: sum.splits)
  show ?thesis
  proof (cases f)
    case True
    with res have "statistics_record smp ?st1 = Inr (w, st')" by simp
    from statistics_record_inv [OF inv1 this] show ?thesis .
  next
    case False
    with res inv1 show ?thesis by simp
  qed
qed

lemma statistics_updates_inv:
  "driver_inv st \<Longrightarrow> statistics_updates secs st = Inr st' \<Longrightarrow> driver_inv st'"
proof (induction secs arbitrary: st)
  case Nil
  then show ?case by simp
next
  case (Cons sec secs)
  obtain f c dt where sec: "sec = (f, c, dt)" by (cases sec)
  from Cons.prems(2) sec obtain w st1 where
    one: "statistics_update f dt (st\<lparr>tls_connections := tls_connections st + c\<rparr>) = Inr (w, st1)"
    and rest: "statistics_updates secs st1 = Inr st'"
    by (auto split: sum.splits)
  from Cons.prems(1) have "driver_inv (st\<lparr>tls_connections := tls_connections st + c\<rparr>)"
    by (simp add: driver_inv_counters)
  from statistics_update_inv [OF this one] have "driver_inv st1" .
  from Cons.IH [OF this rest] show ?case .
qed


lemma g_lat_inv_init: "g_lat_inv g_lat_stat_init"
  by (simp add: g_lat_inv_def g_lat_stat_init_def)

lemma LatencyStat_dump_inv: "g_lat_inv g \<Longrightarrow> g_lat_inv (LatencyStat_dump s g)"
  by (auto simp: g_lat_inv_def LatencyStat_dump_def dump_loop_stat dump_loop_acc_lat
      dest: set_takeWhileD)

lemma dump_all_inv: "g_lat_inv g \<Longrightarrow> g_lat_inv (dump_all ss g)"
  by (induction ss arbitrary: g) (simp_all add: LatencyStat_dump_inv)

lemma unat_sum_list:
  "sum_list (map unat ws) < 2 ^ 64 \<Longrightarrow> unat (sum_list ws :: 64 word) = sum_list (map unat ws)"
proof (induction ws)
  case Nil
  then show ?case by simp
next
  case (Cons w ws)
  then have "sum_list (map unat ws) < 2 ^ 64" by simp
  with Cons.IH have "unat (sum_list ws) = sum_list (map unat ws)" by simp
  with Cons.prems show ?case by (simp add: unat_add_lem [THEN iffD1])
qed

lemma sum_list_lower: "\<forall>x \<in> set xs. (m::nat) \<le> f x \<Longrightarrow> length xs * m \<le> sum_list (map f xs)"
  by (induction xs) auto

lemma sum_list_upper: "\<forall>x \<in> set xs. f x \<le> (m::nat) \<Longrightarrow> sum_list (map f xs) \<le> length xs * m"
  by (induction xs) auto

lemma as_int32_small:
  assumes "x < 2 ^ 31"
  shows "as_int32 x = uint x"
proof -
  from assms have lt: "uint x < 2 ^ 31" by (simp add: word_less_def)
  have "uint (ucast x :: 32 word) = take_bit 32 (uint x)"
    by (simp add: unsigned_ucast_eq)
  also have "\<dots> = uint x"
    using lt by (simp add: take_bit_int_eq_self)
  finally have u: "uint (ucast x :: 32 word) = uint x" .
  have "sint (ucast x :: 32 word) = signed_take_bit 31 (uint (ucast x :: 32 word))"
    by (simp add: sint_uint)
  also have "\<dots> = uint x"
  proof -
    have "- (2 ^ 31) \<le> uint x" by (rule order_trans [of _ 0]) simp_all
    with lt show ?thesis unfolding u by (intro signed_take_bit_int_eq_self) simp_all
  qed
  finally show ?thesis by (simp add: as_int32_def)
qed


lemma sorted_small_latencies:
  assumes "\<forall>l \<in> set xs. l < 2 ^ 31"
  shows "sorted (sort_less_int32 xs)"
proof -
  let ?ys = "sort_less_int32 xs"
  have set: "set ?ys = set xs" by (simp add: sort_less_int32_def)
  have "sorted (map as_int32 ?ys)" by (simp add: sort_less_int32_def)
  moreover have "map as_int32 ?ys = map uint ?ys"
    using assms set by (intro map_cong) (simp_all add: as_int32_small)
  ultimately have "sorted (map uint ?ys)" by simp
  then show ?thesis
    by (simp add: sorted_map word_le_def [symmetric])
qed

lemma sorted_bounds:
  assumes "sorted (ys :: 64 word list)" and "k < length ys"
  shows "hd ys \<le> ys ! k \<and> ys ! k \<le> last ys"
proof -
  from assms(2) have ne: "ys \<noteq> []" by auto
  have "ys ! 0 \<le> ys ! k" using assms by (intro sorted_nth_mono) simp_all
  moreover have "ys ! k \<le> ys ! (length ys - 1)" using assms by (intro sorted_nth_mono) simp_all
  ultimately show ?thesis using ne by (simp add: hd_conv_nth last_conv_nth)
qed

lemma percentile_index: "0 < n \<Longrightarrow> n * 95 div 100 < (n::nat)"
  by simp

lemma latency_average_bounds:
  assumes inv: "g_lat_inv g"
    and ne: "stat g \<noteq> []"
    and nowrap: "sum_list (map unat (stat g)) < 2 ^ 64"
    and lo: "\<forall>x \<in> set (stat g). a \<le> x"
    and hi: "\<forall>x \<in> set (stat g). x \<le> d"
  shows "\<exists>b. unsigned_div (acc_lat g) (of_nat (length (stat g))) = Inr b \<and> a \<le> b \<and> b \<le> d"
proof -
  let ?n = "length (stat g)"
  let ?S = "sum_list (map unat (stat g))"
  from ne have n0: "0 < ?n" by simp
  from inv have "\<forall>x \<in> set (stat g). 1 \<le> unat x"
    by (auto simp: g_lat_inv_def unat_gt_0 Suc_le_eq)
  from sum_list_lower [OF this] have nS: "?n \<le> ?S" by simp
  with nowrap have nlt: "?n < 2 ^ 64" by simp
  then have un: "unat (of_nat ?n :: 64 word) = ?n"
    by (simp add: unat_of_nat take_bit_nat_eq_self)
  with n0 have nz: "(of_nat ?n :: 64 word) \<noteq> 0" by (metis unat_0 less_numeral_extra(3))
  from inv nowrap have acc: "unat (acc_lat g) = ?S"
    by (simp add: g_lat_inv_def unat_sum_list)
  let ?b = "acc_lat g div of_nat ?n"
  have ub: "unat ?b = ?S div ?n" by (simp add: unat_div acc un)
  from lo have "\<forall>x \<in> set (stat g). unat a \<le> unat x" by (simp add: word_le_nat_alt)
  from sum_list_lower [OF this] have "?n * unat a \<le> ?S" .
  with n0 have 1: "unat a \<le> ?S div ?n"
    by (simp add: less_eq_div_iff_mult_less_eq mult.commute)
  from hi have "\<forall>x \<in> set (stat g). unat x \<le> unat d" by (simp add: word_le_nat_alt)
  from sum_list_upper [OF this] have "?S \<le> ?n * unat d" .
  with n0 have 2: "?S div ?n \<le> unat d"
    by (metis div_le_mono nonzero_mult_div_cancel_left less_numeral_extra(3))
  from 1 2 ub have "a \<le> ?b \<and> ?b \<le> d" by (simp add: word_le_nat_alt)
  with nz show ?thesis by (simp add: unsigned_div_def)
qed


lemma throughput_percentile:
  assumes "hs_history st \<noteq> []"
  shows "\<exists>p. vector_at (sort_greater (hs_history st)) (length (hs_history st) * 95 div 100) = Inr p
             \<and> p \<in> set (hs_history st)"
proof -
  let ?h = "sort_greater (hs_history st)"
  let ?k = "length (hs_history st) * 95 div 100"
  from assms have "0 < length (hs_history st)" by simp
  from percentile_index [OF this] have "?k < length ?h" by (simp only: sort_greater_def length_rev length_sort)
  moreover from this have "?h ! ?k \<in> set ?h" by (rule nth_mem)
  moreover have "set ?h = set (hs_history st)" by (simp add: sort_greater_def)
  ultimately show ?thesis by (simp add: vector_at_def)
qed

text \<open>
  Claim C6, as amended. For a report produced from a run of the driver and a non-empty
  latency store whose samples are below \<open>2 ^ 31\<close> microseconds and whose sum is below
  \<open>2 ^ 64\<close>: the throughput numbers satisfy \<open>95P \<le> max\<close>, \<open>avg \<le> max\<close> and
  \<open>min \<le> max\<close>, and the latency numbers satisfy \<open>min \<le> avg \<le> max\<close> and
  \<open>min \<le> 95P \<le> max\<close>. Nothing orders the average and the 95th percentile, nor the
  throughput minimum (the least non-zero sample) and the throughput average or
  percentile.
\<close>

theorem statistics_dump_ordering:
  assumes run: "statistics_updates secs stat_init = Inr st"
    and store: "g = dump_all samplers g_lat_stat_init"
    and rep: "statistics_dump start_stats st g = Inr r"
    and ne: "stat g \<noteq> []"
    and small: "\<forall>l \<in> set (stat g). l < 2 ^ 31"
    and nowrap: "sum_list (map unat (stat g)) < 2 ^ 64"
  shows "\<exists>p a b c d.
           hs_95P r = Inr p \<and> p \<le> hs_MAX r \<and> hs_AVG r \<le> hs_MAX r \<and> hs_MIN r \<le> hs_MAX r \<and>
           lat_MIN r = Inr a \<and> lat_AVG r = Inr b \<and> lat_95P r = Inr c \<and> lat_MAX r = Inr d \<and>
           a \<le> b \<and> b \<le> d \<and> a \<le> c \<and> c \<le> d"
proof -
  let ?ys = "sort_less_int32 (stat g)"
  let ?k = "length (stat g) * 95 div 100"
  from statistics_updates_inv [OF driver_inv_init run] have dinv: "driver_inv st" .
  from store have ginv: "g_lat_inv g" by (simp add: dump_all_inv g_lat_inv_init)
  from rep have guard: "hs_history st \<noteq> []"
    by (auto simp: statistics_dump_def Let_def split: if_splits)
  from rep guard have fields:
    "hs_MAX r = max_hs st" "hs_AVG r = avg_hs st" "hs_MIN r = min_hs st"
    "hs_95P r = vector_at (sort_greater (hs_history st)) (length (hs_history st) * 95 div 100)"
    "lat_MIN r = vector_front ?ys"
    "lat_AVG r = unsigned_div (acc_lat g) (of_nat (length (stat g)))"
    "lat_95P r = vector_at ?ys ?k"
    "lat_MAX r = vector_back ?ys"
    by (auto simp: statistics_dump_def Let_def split: if_splits)
  from throughput_percentile [OF guard] obtain p where
    p: "hs_95P r = Inr p" "p \<in> set (hs_history st)" by (auto simp: fields)
  from dinv p(2) have thr: "p \<le> hs_MAX r" "hs_AVG r \<le> hs_MAX r" "hs_MIN r \<le> hs_MAX r"
    by (simp_all add: driver_inv_def fields)
  have len: "length ?ys = length (stat g)" and set: "set ?ys = set (stat g)"
    by (simp_all add: sort_less_int32_def)
  from ne len have yne: "?ys \<noteq> []" by auto
  from ne have "0 < length (stat g)" by simp
  from percentile_index [OF this] have k: "?k < length ?ys" by (simp only: len)
  have srt: "sorted ?ys" using small by (rule sorted_small_latencies)
  have mn: "lat_MIN r = Inr (hd ?ys)"
    using yne by (cases ?ys) (simp_all add: fields vector_front_def)
  have mx: "lat_MAX r = Inr (last ?ys)"
    using yne by (simp add: fields vector_back_def)
  have mid: "lat_95P r = Inr (?ys ! ?k)"
    using k by (simp add: fields vector_at_def)
  from sorted_bounds [OF srt k] have c: "hd ?ys \<le> ?ys ! ?k" "?ys ! ?k \<le> last ?ys" by simp_all
  have lo: "\<forall>x \<in> set (stat g). hd ?ys \<le> x"
  proof
    fix x assume "x \<in> set (stat g)"
    with set obtain j where "j < length ?ys" "?ys ! j = x" by (metis in_set_conv_nth)
    with sorted_bounds [OF srt, of j] show "hd ?ys \<le> x" by simp
  qed
  have hi: "\<forall>x \<in> set (stat g). x \<le> last ?ys"
  proof
    fix x assume "x \<in> set (stat g)"
    with set obtain j where "j < length ?ys" "?ys ! j = x" by (metis in_set_conv_nth)
    with sorted_bounds [OF srt, of j] show "x \<le> last ?ys" by simp
  qed
  from latency_average_bounds [OF ginv ne nowrap lo hi] obtain b where
    b: "lat_AVG r = Inr b" "hd ?ys \<le> b" "b \<le> last ?ys" by (auto simp: fields)
  from p(1) thr mn mx mid c b show ?thesis by blast
qed


theorem statistics_dump_ordering_witness:
  "statistics_updates [(True, 10, 1000), (True, 20, 1000)] stat_init =
     Inr (stat_init\<lparr>measures := 2, max_hs := 20, min_hs := 10, avg_hs := 15,
                     hs_history := [10, 20]\<rparr>) \<and>
   dump_all [\<lparr>ls_i = 2, ls_di = 1, ls_stat = [5, 9, 0, 0]\<rparr>] g_lat_stat_init =
     \<lparr>stat = [5, 9], acc_lat = 14\<rparr> \<and>
   statistics_dump True
       (stat_init\<lparr>measures := 2, max_hs := 20, min_hs := 10, avg_hs := 15,
                   hs_history := [10, 20]\<rparr>)
       \<lparr>stat = [5, 9], acc_lat = 14\<rparr> =
     Inr \<lparr>SECONDS = 2, HANDSHAKES = 0, hs_MAX = 20, hs_AVG = 15, hs_95P = Inr 10,
          hs_MIN = 10, lat_MIN = Inr 5, lat_AVG = Inr 7, lat_95P = Inr 9, lat_MAX = Inr 9\<rparr> \<and>
   (\<exists>p a b c d.
      Inr 10 = Inr p \<and> p \<le> (20::int) \<and> (15::int) \<le> 20 \<and> (10::int) \<le> 20 \<and>
      Inr 5 = Inr a \<and> Inr 7 = Inr b \<and> Inr 9 = Inr c \<and> Inr 9 = Inr d \<and>
      a \<le> b \<and> b \<le> d \<and> a \<le> c \<and> c \<le> (d :: 64 word))"
proof -
  let ?st = "stat_init\<lparr>measures := 2, max_hs := 20, min_hs := 10, avg_hs := 15,
                        hs_history := [10, 20]\<rparr>"
  let ?g = "\<lparr>stat = [5, 9 :: 64 word], acc_lat = 14\<rparr>"
  let ?r = "\<lparr>SECONDS = 2, HANDSHAKES = 0, hs_MAX = 20, hs_AVG = 15, hs_95P = Inr 10,
          hs_MIN = 10, lat_MIN = Inr 5, lat_AVG = Inr 7, lat_95P = Inr 9, lat_MAX = Inr 9\<rparr>"
  have run: "statistics_updates [(True, 10, 1000), (True, 20, 1000)] stat_init = Inr ?st"
    by (simp add: statistics_update_def curr_hs_sample_def statistics_record_def stat_init_def
        in_int32_def c_div_def Let_def)
  have store: "?g = dump_all [\<lparr>ls_i = 2, ls_di = 1, ls_stat = [5, 9, 0, 0]\<rparr>] g_lat_stat_init"
    by (simp add: LatencyStat_dump_def g_lat_stat_init_def)
  have rep: "statistics_dump True ?st ?g = Inr ?r"
    by code_simp
  have ne: "stat ?g \<noteq> []" by simp
  have small: "\<forall>l \<in> set (stat ?g). l < 2 ^ 31" by (simp add: word_less_nat_alt)
  have nowrap: "sum_list (map unat (stat ?g)) < 2 ^ 64" by simp
  from statistics_dump_ordering [OF run store rep ne small nowrap]
  have "\<exists>p a b c d.
           hs_95P ?r = Inr p \<and> p \<le> hs_MAX ?r \<and> hs_AVG ?r \<le> hs_MAX ?r \<and> hs_MIN ?r \<le> hs_MAX ?r \<and>
           lat_MIN ?r = Inr a \<and> lat_AVG ?r = Inr b \<and> lat_95P ?r = Inr c \<and> lat_MAX ?r = Inr d \<and>
           a \<le> b \<and> b \<le> d \<and> a \<le> c \<and> c \<le> d" .
  then have "\<exists>p a b c d.
      Inr 10 = Inr p \<and> p \<le> (20::int) \<and> (15::int) \<le> 20 \<and> (10::int) \<le> 20 \<and>
      Inr 5 = Inr a \<and> Inr 7 = Inr b \<and> Inr 9 = Inr c \<and> Inr 9 = Inr d \<and>
      a \<le> b \<and> b \<le> d \<and> a \<le> c \<and> c \<le> (d :: 64 word)"
    by simp
  with run store [symmetric] rep show ?thesis by blast
qed

text \<open>
  Claim C6 as it is stated fails. Two recorded seconds with 10 and then 0 handshakes
  give the throughput numbers min 10, avg 5, 95P 0, max 10; twenty latencies of 1 and
  one of 1000 microseconds give the latency numbers min 1, avg 48, 95P 1, max 1000.
\<close>

theorem statistics_dump_not_monotone:
  "statistics_updates [(True, 10, 1000), (True, 0, 1000)] stat_init =
     Inr (stat_init\<lparr>measures := 2, max_hs := 10, min_hs := 10, avg_hs := 5,
                     hs_history := [10, 0]\<rparr>) \<and>
   LatencyStat_updates (replicate 20 1 @ [1000]) LatencyStat_init =
     Inr \<lparr>ls_i = 21, ls_di = 1, ls_stat = replicate 20 1 @ [1000] @ replicate 1003 0\<rparr> \<and>
   dump_all [\<lparr>ls_i = 21, ls_di = 1, ls_stat = replicate 20 1 @ [1000] @ replicate 1003 0\<rparr>]
       g_lat_stat_init =
     \<lparr>stat = replicate 20 1 @ [1000], acc_lat = 1020\<rparr> \<and>
   statistics_dump True
       (stat_init\<lparr>measures := 2, max_hs := 10, min_hs := 10, avg_hs := 5,
                   hs_history := [10, 0]\<rparr>)
       \<lparr>stat = replicate 20 1 @ [1000], acc_lat = 1020\<rparr> =
     Inr \<lparr>SECONDS = 2, HANDSHAKES = 0, hs_MAX = 10, hs_AVG = 5, hs_95P = Inr 0,
          hs_MIN = 10, lat_MIN = Inr 1, lat_AVG = Inr 48, lat_95P = Inr 1,
          lat_MAX = Inr 1000\<rparr> \<and>
   \<not> spec_percentile_monotonicity
       \<lparr>SECONDS = 2, HANDSHAKES = 0, hs_MAX = 10, hs_AVG = 5, hs_95P = Inr 0,
        hs_MIN = 10, lat_MIN = Inr 1, lat_AVG = Inr 48, lat_95P = Inr 1,
        lat_MAX = Inr 1000\<rparr>"
proof -
  have "statistics_updates [(True, 10, 1000), (True, 0, 1000)] stat_init =
     Inr (stat_init\<lparr>measures := 2, max_hs := 10, min_hs := 10, avg_hs := 5,
                     hs_history := [10, 0]\<rparr>)"
    by (simp add: statistics_update_def curr_hs_sample_def statistics_record_def stat_init_def
        in_int32_def c_div_def Let_def)
  moreover have "LatencyStat_updates (replicate 20 1 @ [1000]) LatencyStat_init =
     Inr \<lparr>ls_i = 21, ls_di = 1, ls_stat = replicate 20 1 @ [1000] @ replicate 1003 0\<rparr>"
    by code_simp
  moreover have
    "dump_all [\<lparr>ls_i = 21, ls_di = 1, ls_stat = replicate 20 1 @ [1000] @ replicate 1003 0\<rparr>]
       g_lat_stat_init =
     \<lparr>stat = replicate 20 1 @ [1000], acc_lat = 1020\<rparr>"
    by code_simp
  moreover have "statistics_dump True
       (stat_init\<lparr>measures := 2, max_hs := 10, min_hs := 10, avg_hs := 5,
                   hs_history := [10, 0]\<rparr>)
       \<lparr>stat = replicate 20 1 @ [1000], acc_lat = 1020\<rparr> =
     Inr \<lparr>SECONDS = 2, HANDSHAKES = 0, hs_MAX = 10, hs_AVG = 5, hs_95P = Inr 0,
          hs_MIN = 10, lat_MIN = Inr 1, lat_AVG = Inr 48, lat_95P = Inr 1,
          lat_MAX = Inr 1000\<rparr>"
    by code_simp
  moreover have "\<not> spec_percentile_monotonicity
       \<lparr>SECONDS = 2, HANDSHAKES = 0, hs_MAX = 10, hs_AVG = 5, hs_95P = Inr 0,
        hs_MIN = 10, lat_MIN = Inr 1, lat_AVG = Inr 48, lat_95P = Inr 1,
        lat_MAX = Inr 1000\<rparr>"
    by (simp add: spec_percentile_monotonicity_def)
  ultimately show ?thesis by blast
qed

text \<open>
  Why the latencies are taken below \<open>2 ^ 31\<close> above: the comparison in \<^verbatim>\<open>int32_t\<close> puts a
  latency of \<open>2 ^ 31\<close> microseconds before a latency of 1 microsecond.
\<close>

lemma sort_less_int32_wraps: "sort_less_int32 [1, 2147483648] = [2147483648, 1]"
  by (simp add: sort_less_int32_def as_int32_def)

section \<open>Properties of update_limits and of the poller's queues\<close>

text \<open>
  Claim C4 (the code differs). When \<^verbatim>\<open>setrlimit\<close> fails, the new \<^verbatim>\<open>n_peers\<close> is computed from
  the requested number of descriptors, which the code has just written over
  \<^verbatim>\<open>open_file_limit.rlim_cur\<close>, and not from the available ceiling: with 2000 peers and 4
  threads the request is 8016 and the code continues with 1002 peers per thread, whether
  the ceiling is 1024 or 4096; with 1 peer and 100 threads and a ceiling of 10 it
  continues with 4 peers per thread.
\<close>

theorem update_limits_ignores_ceiling:
  "req_fd_n \<lparr>n_peers = 2000, n_threads = 4, n_hs = - 1\<rparr> = Inr 8016 \<and>
   update_limits 1024 False \<lparr>n_peers = 2000, n_threads = 4, n_hs = - 1\<rparr> =
     Inr \<lparr>n_peers = 1002, n_threads = 4, n_hs = - 1\<rparr> \<and>
   update_limits 4096 False \<lparr>n_peers = 2000, n_threads = 4, n_hs = - 1\<rparr> =
     Inr \<lparr>n_peers = 1002, n_threads = 4, n_hs = - 1\<rparr> \<and>
   update_limits 10 False \<lparr>n_peers = 1, n_threads = 100, n_hs = - 1\<rparr> =
     Inr \<lparr>n_peers = 4, n_threads = 100, n_hs = - 1\<rparr>"
  by (simp add: update_limits_def req_fd_n_def in_int32_def Let_def word_less_nat_alt)

theorem update_limits_ignores_ceiling_witness:
  "update_limits 1024 False \<lparr>n_peers = 2000, n_threads = 4, n_hs = - 1\<rparr> =
   update_limits 4096 False \<lparr>n_peers = 2000, n_threads = 4, n_hs = - 1\<rparr>"
  using update_limits_ignores_ceiling by simp

text \<open>
  In general: once the request is not below the soft limit and \<^verbatim>\<open>setrlimit\<close> fails, the
  outcome does not depend on the soft limit at all.
\<close>

lemma update_limits_fallback_ignores_rlim_cur:
  assumes "req_fd_n opt = Inr req" and "\<not> rlim_cur > req" and "\<not> rlim_cur' > req"
  shows "update_limits rlim_cur False opt = update_limits rlim_cur' False opt"
  using assms by (simp add: update_limits_def)

lemma next_backlog_times_all:
  "next_backlog_times (length q) (io\<lparr>io_backlog := q\<rparr>) = (map Some q, io\<lparr>io_backlog := []\<rparr>)"
proof (induction q arbitrary: io)
  case Nil
  then show ?case by simp
next
  case (Cons sh q)
  have "next_backlog (io\<lparr>io_backlog := sh # q\<rparr>) = (Some sh, io\<lparr>io_backlog := q\<rparr>)"
    by (simp add: next_backlog_def)
  with Cons.IH [of io] show ?case by simp
qed

text \<open>
  Claim C5, as amended. \<^verbatim>\<open>IO::backlog\<close> exchanges the two queues: afterwards the backlog
  holds the peers of the reconnect queue, in order, and the reconnect queue holds what
  the backlog held before (so it is empty when the backlog was). As many calls of
  \<^verbatim>\<open>next_backlog\<close> as there are peers return them one at a time from the front, and the
  next call returns \<^verbatim>\<open>NULL\<close>.
\<close>

theorem backlog_swaps:
  "io_backlog (backlog io) = io_reconnect_q io \<and>
   io_reconnect_q (backlog io) = io_backlog io \<and>
   next_backlog_times (length (io_reconnect_q io)) (backlog io) =
     (map Some (io_reconnect_q io), (backlog io)\<lparr>io_backlog := []\<rparr>) \<and>
   next_backlog ((backlog io)\<lparr>io_backlog := []\<rparr>) = (None, (backlog io)\<lparr>io_backlog := []\<rparr>)"
proof -
  have "backlog io = (backlog io)\<lparr>io_backlog := io_reconnect_q io\<rparr>"
    by (simp add: backlog_def)
  with next_backlog_times_all [of "io_reconnect_q io" "backlog io"]
  have "next_backlog_times (length (io_reconnect_q io)) (backlog io) =
     (map Some (io_reconnect_q io), (backlog io)\<lparr>io_backlog := []\<rparr>)"
    by simp
  then show ?thesis by (simp add: backlog_def next_backlog_def)
qed

theorem backlog_swaps_witness:
  "backlog \<lparr>io_ev_count = 0, io_events = [], io_reconnect_q = [3, 1, 2], io_backlog = []\<rparr> =
     \<lparr>io_ev_count = 0, io_events = [], io_reconnect_q = [], io_backlog = [3, 1, 2]\<rparr> \<and>
   next_backlog_times 3
       \<lparr>io_ev_count = 0, io_events = [], io_reconnect_q = [], io_backlog = [3, 1, 2]\<rparr> =
     ([Some 3, Some 1, Some 2],
      \<lparr>io_ev_count = 0, io_events = [], io_reconnect_q = [], io_backlog = []\<rparr>) \<and>
   next_backlog \<lparr>io_ev_count = 0, io_events = [], io_reconnect_q = [], io_backlog = []\<rparr> =
     (None, \<lparr>io_ev_count = 0, io_events = [], io_reconnect_q = [], io_backlog = []\<rparr>)"
  using backlog_swaps [of "\<lparr>io_ev_count = 0, io_events = [], io_reconnect_q = [3, 1, 2], io_backlog = []\<rparr>"]
  by (simp add: backlog_def next_backlog_def eval_nat_numeral)

text \<open>
  Claim C5 as it is stated fails for a backlog that is not empty: the reconnect queue
  is left with the peers of the old backlog.
\<close>

theorem backlog_leaves_old_backlog:
  "io_reconnect_q (backlog \<lparr>io_ev_count = 0, io_events = [], io_reconnect_q = [1], io_backlog = [2]\<rparr>) = [2] \<and>
   io_reconnect_q (backlog \<lparr>io_ev_count = 0, io_events = [], io_reconnect_q = [1], io_backlog = [2]\<rparr>) \<noteq> []"
  by (simp add: backlog_def)


section \<open>Properties of the peer state machine\<close>


lemmas peer_defs = next_state_def tcp_connect_def tcp_connect_try_finish_def
  handle_established_tcp_conn_def handle_connect_error_def tls_handshake_def
  disconnect_def del_from_poll_def add_to_poll_def queue_reconnect_def on_stat_def

lemmas scenario_defs = sys_handshake_done_def sys_handshake_want_read_def sys_handshake_fatal_def
  thread_init_def Peer_new_def stat_init_def IO_init_def LatencyStat_init_def
  SSL_ERROR_WANT_READ_def SSL_ERROR_WANT_WRITE_def EAGAIN_def EINPROGRESS_def


lemma tls_handshake_fatal_guard:
  assumes "p_tls p \<noteq> None" and "SSL_connect_ret sys \<noteq> 1"
    and "SSL_get_error_ret sys \<noteq> SSL_ERROR_WANT_READ"
    and "SSL_get_error_ret sys \<noteq> SSL_ERROR_WANT_WRITE"
  shows "(\<exists>e. tls_handshake sys self p t = Inl e) \<longleftrightarrow> tls_connections (t_stat t) = 0"
  using assms by (auto simp: tls_handshake_def Let_def)

text \<open>
  Claim C1 (the code differs). The guard of the fatal branch reads \<^verbatim>\<open>stat.tls_connections\<close>,
  the counter of the current second, which \<^verbatim>\<open>statistics_update\<close> takes back to zero. A
  peer completes a handshake (\<^verbatim>\<open>tot_tls_handshakes\<close> is 1), the driver takes its sample,
  and the fatal error of the next handshake throws "cannot establish even one TLS
  connection", although one TLS connection has succeeded.
\<close>

theorem tls_handshake_fails_after_window_reset:
  "next_state sys_handshake_done 0 (Peer_new 0) thread_init =
     Inr (True, Peer_new 0,
          \<lparr>t_stat = stat_init\<lparr>tot_tls_handshakes := 1, tls_connections := 1\<rparr>,
           t_io = IO_init\<lparr>io_reconnect_q := [0]\<rparr>,
           t_lat_stat = LatencyStat_init\<lparr>ls_i := 1, ls_stat := (replicate LATENCY_N 0)[0 := 7]\<rparr>\<rparr>) \<and>
   statistics_update False 1000 (stat_init\<lparr>tot_tls_handshakes := 1, tls_connections := 1\<rparr>) =
     Inr (False, stat_init\<lparr>tot_tls_handshakes := 1\<rparr>) \<and>
   tot_tls_handshakes (stat_init\<lparr>tot_tls_handshakes := 1\<rparr>) = 1 \<and>
   next_state sys_handshake_fatal 0 (Peer_new 0)
       \<lparr>t_stat = stat_init\<lparr>tot_tls_handshakes := 1\<rparr>,
        t_io = IO_init\<lparr>io_reconnect_q := [0]\<rparr>,
        t_lat_stat = LatencyStat_init\<lparr>ls_i := 1, ls_stat := (replicate LATENCY_N 0)[0 := 7]\<rparr>\<rparr> =
     Inl (Except ''cannot establish even one TLS connection'')"
  by (simp add: peer_defs scenario_defs LatencyStat_update_def LATENCY_N_def
      statistics_update_def curr_hs_sample_def in_int32_def Let_def word_le_nat_alt)


theorem tls_handshake_fails_after_window_reset_witness:
  "\<exists>e. next_state sys_handshake_fatal 0 (Peer_new 0)
       \<lparr>t_stat = stat_init\<lparr>tot_tls_handshakes := 1\<rparr>,
        t_io = IO_init\<lparr>io_reconnect_q := [0]\<rparr>,
        t_lat_stat = LatencyStat_init\<lparr>ls_i := 1, ls_stat := (replicate LATENCY_N 0)[0 := 7]\<rparr>\<rparr> =
     Inl e"
  using tls_handshake_fails_after_window_reset by blast

text \<open>
  Claim C2 (the code differs). The comment in \<^verbatim>\<open>tls_handshake\<close> says that the latency is
  updated only if a handshake happens immediately, but the branch \<^verbatim>\<open>r == 1\<close> calls
  \<^verbatim>\<open>lat_stat.update\<close> whether the session was created by this call or by an earlier
  one. A handshake that is suspended on its first call (\<^verbatim>\<open>SSL_ERROR_WANT_READ\<close>) and
  completes on the next one, with the session already there, advances the counters and
  passes the 7 microseconds of the second call to the sampler: the sampler has changed.
\<close>

theorem tls_handshake_samples_resumed_completion:
  "next_state sys_handshake_want_read 0 (Peer_new 0) thread_init =
     Inr (False,
          \<lparr>sd = 5, p_id = 0, p_tls = Some 1, p_state = STATE_TLS_HANDSHAKING, p_polled = True\<rparr>,
          \<lparr>t_stat = stat_init\<lparr>tcp_connections := 1, tls_handshakes := 1\<rparr>,
           t_io = IO_init, t_lat_stat = LatencyStat_init\<rparr>) \<and>
   next_state sys_handshake_done 0
       \<lparr>sd = 5, p_id = 0, p_tls = Some 1, p_state = STATE_TLS_HANDSHAKING, p_polled = True\<rparr>
       \<lparr>t_stat = stat_init\<lparr>tcp_connections := 1, tls_handshakes := 1\<rparr>,
        t_io = IO_init, t_lat_stat = LatencyStat_init\<rparr> =
     Inr (True, Peer_new 0,
          \<lparr>t_stat = stat_init\<lparr>tot_tls_handshakes := 1, tls_connections := 1\<rparr>,
           t_io = IO_init\<lparr>io_reconnect_q := [0]\<rparr>,
           t_lat_stat = LatencyStat_init\<lparr>ls_i := 1, ls_stat := (replicate LATENCY_N 0)[0 := 7]\<rparr>\<rparr>) \<and>
   LatencyStat_init\<lparr>ls_i := 1, ls_stat := (replicate LATENCY_N 0)[0 := 7]\<rparr> \<noteq> LatencyStat_init"
  by (simp add: peer_defs scenario_defs LatencyStat_update_def LATENCY_N_def
      Let_def word_le_nat_alt)


theorem tls_handshake_samples_resumed_completion_witness:
  "\<exists>p t. next_state sys_handshake_done 0
            \<lparr>sd = 5, p_id = 0, p_tls = Some 1, p_state = STATE_TLS_HANDSHAKING, p_polled = True\<rparr>
            \<lparr>t_stat = stat_init\<lparr>tcp_connections := 1, tls_handshakes := 1\<rparr>,
             t_io = IO_init, t_lat_stat = LatencyStat_init\<rparr> = Inr (True, p, t) \<and>
          t_lat_stat t \<noteq> LatencyStat_init"
  using tls_handshake_samples_resumed_completion by simp

lemma tls_handshake_not_completed:
  assumes "tls_handshake sys self p t = Inr (False, p', t')"
  shows "t_lat_stat t' = t_lat_stat t"
  using assms
  by (auto simp: tls_handshake_def on_stat_def Let_def
      split: if_splits option.splits sum.splits)

lemma handle_connect_error_lat:
  assumes "handle_connect_error sys err p t = Inr (p', t')"
  shows "t_lat_stat t' = t_lat_stat t"
  using assms
  by (auto simp: handle_connect_error_def on_stat_def Let_def split: if_splits sum.splits)

lemma next_state_not_completed:
  assumes "next_state sys self p t = Inr (False, p', t')"
  shows "t_lat_stat t' = t_lat_stat t"
proof -
  have he: "\<And>q u. handle_established_tcp_conn sys self q u = Inr (False, p', t') \<Longrightarrow>
                t_lat_stat t' = t_lat_stat u"
    by (auto simp: handle_established_tcp_conn_def Let_def on_stat_def
        dest!: tls_handshake_not_completed)
  show ?thesis
  proof (cases "p_state p")
    case STATE_TCP_CONNECT
    with assms show ?thesis
      by (auto simp: next_state_def tcp_connect_def Let_def on_stat_def
          split: if_splits sum.splits dest!: he handle_connect_error_lat)
  next
    case STATE_TCP_CONNECTING
    with assms show ?thesis
      by (auto simp: next_state_def tcp_connect_try_finish_def
          split: if_splits sum.splits dest!: he handle_connect_error_lat)
  next
    case STATE_TLS_HANDSHAKING
    with assms show ?thesis
      by (auto simp: next_state_def dest!: tls_handshake_not_completed)
  qed
qed


text \<open>
  What the code does on every such call: a call of \<^verbatim>\<open>next_state\<close> in state
  \<^verbatim>\<open>STATE_TLS_HANDSHAKING\<close> with the session already there, on which \<^verbatim>\<open>SSL_connect\<close>
  returns 1, returns true, advances the three counters and passes the duration of this
  call's \<^verbatim>\<open>SSL_connect\<close> to the sampler's \<^verbatim>\<open>update\<close>, which stores it when it is not
  zero. A call that returns false leaves the sampler as it was.
\<close>

lemma next_state_resumed_completion:
  assumes "p_state p = STATE_TLS_HANDSHAKING" and "p_tls p = Some ctx"
    and "SSL_connect_ret sys = 1" and "LatencyStat_inv (t_lat_stat t)"
  shows "(\<exists>p' t' lat'.
            next_state sys self p t = Inr (True, p', t') \<and>
            tls_handshakes (t_stat t') = tls_handshakes (t_stat t) - 1 \<and>
            tls_connections (t_stat t') = tls_connections (t_stat t) + 1 \<and>
            tot_tls_handshakes (t_stat t') = tot_tls_handshakes (t_stat t) + 1 \<and>
            LatencyStat_update (latency sys) (t_lat_stat t) = Inr lat' \<and>
            t_lat_stat t' = lat' \<and>
            (latency sys \<noteq> 0 \<longrightarrow>
               ls_stat lat' ! unat (ls_i (t_lat_stat t)) = latency sys)) \<and>
         (\<forall>sys' self' q u q' u'. next_state sys' self' q u = Inr (False, q', u') \<longrightarrow>
            t_lat_stat u' = t_lat_stat u)"
proof -
  from LatencyStat_update_inv [OF assms(4), of "latency sys"] obtain lat' where
    lat': "LatencyStat_update (latency sys) (t_lat_stat t) = Inr lat'" by blast
  have stored: "latency sys \<noteq> 0 \<longrightarrow> ls_stat lat' ! unat (ls_i (t_lat_stat t)) = latency sys"
  proof
    assume nz: "latency sys \<noteq> 0"
    from assms(4) have "unat (ls_i (t_lat_stat t)) < length (ls_stat (t_lat_stat t))"
      by (simp add: LatencyStat_inv_def)
    with lat' LatencyStat_update_step [OF assms(4) nz]
    show "ls_stat lat' ! unat (ls_i (t_lat_stat t)) = latency sys"
      by auto
  qed
  from assms(1-3) lat' have
    "\<exists>p' t'. next_state sys self p t = Inr (True, p', t') \<and>
            tls_handshakes (t_stat t') = tls_handshakes (t_stat t) - 1 \<and>
            tls_connections (t_stat t') = tls_connections (t_stat t) + 1 \<and>
            tot_tls_handshakes (t_stat t') = tot_tls_handshakes (t_stat t) + 1 \<and>
            t_lat_stat t' = lat'"
    by (simp add: next_state_def tls_handshake_def on_stat_def Let_def)
  with lat' stored next_state_not_completed show ?thesis by blast
qed



lemma next_state_resumed_completion_example:
  "\<exists>p' t'.
     next_state sys_handshake_done 0
       \<lparr>sd = 5, p_id = 0, p_tls = Some 1, p_state = STATE_TLS_HANDSHAKING, p_polled = True\<rparr>
       \<lparr>t_stat = stat_init\<lparr>tcp_connections := 1, tls_handshakes := 1\<rparr>,
        t_io = IO_init, t_lat_stat = LatencyStat_init\<rparr> = Inr (True, p', t') \<and>
     tls_handshakes (t_stat t') = 0 \<and> tls_connections (t_stat t') = 1 \<and>
     tot_tls_handshakes (t_stat t') = 1 \<and> ls_stat (t_lat_stat t') ! 0 = 7"
proof -
  let ?p = "\<lparr>sd = 5, p_id = 0, p_tls = Some 1, p_state = STATE_TLS_HANDSHAKING, p_polled = True\<rparr>"
  let ?t = "\<lparr>t_stat = stat_init\<lparr>tcp_connections := 1, tls_handshakes := 1\<rparr>,
        t_io = IO_init, t_lat_stat = LatencyStat_init\<rparr>"
  have h1: "p_state ?p = STATE_TLS_HANDSHAKING" and h2: "p_tls ?p = Some 1" by simp_all
  have h3: "SSL_connect_ret sys_handshake_done = 1" by (simp add: sys_handshake_done_def)
  have h4: "LatencyStat_inv (t_lat_stat ?t)" by (simp add: LatencyStat_inv_init)
  from next_state_resumed_completion [OF h1 h2 h3 h4, of 0] obtain p' t' lat' where
    r: "next_state sys_handshake_done 0 ?p ?t = Inr (True, p', t')"
    "tls_handshakes (t_stat t') = tls_handshakes (t_stat ?t) - 1"
    "tls_connections (t_stat t') = tls_connections (t_stat ?t) + 1"
    "tot_tls_handshakes (t_stat t') = tot_tls_handshakes (t_stat ?t) + 1"
    "t_lat_stat t' = lat'"
    "latency sys_handshake_done \<noteq> 0 \<longrightarrow>
       ls_stat lat' ! unat (ls_i (t_lat_stat ?t)) = latency sys_handshake_done"
    by blast
  from r(2-4) have c: "tls_handshakes (t_stat t') = 0" "tls_connections (t_stat t') = 1"
    "tot_tls_handshakes (t_stat t') = 1"
    by (simp_all add: stat_init_def)
  from r(5,6) have "ls_stat (t_lat_stat t') ! 0 = 7"
    by (simp add: sys_handshake_done_def LatencyStat_init_def)
  with r(1) c show ?thesis by blast
qed


section \<open>Properties of the worker loop\<close>





lemma loop_inv_thread [simp]:
  "loop_inv opt (w\<lparr>w_thread := t\<rparr>) = loop_inv opt w"
  "loop_inv opt (w\<lparr>w_clock := c\<rparr>) = loop_inv opt w"
  "loop_inv opt (w\<lparr>w_start_stats := b\<rparr>) = loop_inv opt w"
  by (simp_all add: loop_inv_def)











end
